theory Spec2Isabelle
  imports Complex_Main "HOL-Library.Word" "HOL-Library.AList"
begin

section \<open>Data model\<close>

text \<open>
  The three revisions of the certificate generator share one data model. A spreadsheet
  row is a JavaScript object \<^verbatim>\<open>{ [key: string]: string | number }\<close>; it is modelled as
  an association list whose order is the order of \<^verbatim>\<open>Object.keys\<close>, with pairwise
  distinct keys. Numbers are the finite doubles, read as the reals they denote (the
  comparisons the code makes are exact on them; \<^verbatim>\<open>NaN\<close> and the infinities are not
  modelled). Strings are sequences of code units below 256.
\<close>

type_synonym byte = "8 word"

datatype cellValue = Str string | Num real

type_synonym certificateData = "(string \<times> cellValue) list"

datatype jsError =
    Error string
  | InvalidCharacterError
  | SyntaxError
  | TypeError
  | LibraryError string

text \<open>
  What the language, the browser and the document libraries provide is collected in one
  record and passed to the functions that call it:
  \<^item> \<^verbatim>\<open>Number.prototype.toString\<close>;
  \<^item> the arithmetic of doubles: the sum, difference, product and quotient of two doubles,
    rounded to a double as IEEE 754 prescribes;
  \<^item> the local calendar fields of the \<^verbatim>\<open>Date\<close> made from a time value (they depend on
    the time zone) and the \<^verbatim>\<open>en-US\<close> long date format of a local date and time;
  \<^item> the regular expression engine for the patterns that are not plain text: whether
    \<^verbatim>\<open>new RegExp(source, 'gi')\<close> throws a \<^verbatim>\<open>SyntaxError\<close>, and the result of
    \<^verbatim>\<open>subject.replace(new RegExp(source, 'gi'), replacement)\<close> when it does not;
  \<^item> the rendering of a DOCX template by docxtemplater (which may throw) from the
    template binary, the \<^verbatim>\<open>nullGetter\<close> option and the render data.
\<close>

record platform =
  numberToString :: "real \<Rightarrow> string"
  doubleAdd :: "real \<Rightarrow> real \<Rightarrow> real"
  doubleSub :: "real \<Rightarrow> real \<Rightarrow> real"
  doubleMul :: "real \<Rightarrow> real \<Rightarrow> real"
  doubleDiv :: "real \<Rightarrow> real \<Rightarrow> real"
  getFullYear :: "real \<Rightarrow> int"
  getMonth :: "real \<Rightarrow> int"
  getDate :: "real \<Rightarrow> int"
  toLocaleDateString :: "int \<times> int \<times> int \<times> int \<times> int \<times> int \<Rightarrow> string"
  regExpSyntaxError :: "string \<Rightarrow> bool"
  regExpReplace :: "string \<Rightarrow> string \<Rightarrow> string \<Rightarrow> string"
  docxRender :: "byte list \<Rightarrow> (string \<Rightarrow> string) \<Rightarrow> (string \<rightharpoonup> string) \<Rightarrow> jsError + byte list"

record uploadStatus =
  docx :: bool
  excel :: bool

datatype event = Download string "byte list" | ConsoleError string

record timer =
  delay :: int
  index :: int

record appState =
  data :: "certificateData list"
  docxBinary :: "byte list option"
  currentIndex :: nat
  uploadStatus :: uploadStatus
  placeholders :: "string list"
  excelColumns :: "string list"
  showRangeDialog :: bool
  rangeStart :: int
  rangeEnd :: int
  alerts :: "string list"
  consoleErrors :: "string list"
  timers :: "timer list"

definition keys :: "('k \<times> 'v) list \<Rightarrow> 'k list" where
  "keys obj = map fst obj"

section \<open>Base64 persistence of the template binary\<close>

text \<open>
  \<^verbatim>\<open>String.fromCharCode(bytes[i])\<close> and \<^verbatim>\<open>bytes[i] = s.charCodeAt(i)\<close> (a store
  into a \<^verbatim>\<open>Uint8Array\<close>, which keeps the low eight bits).
\<close>

definition fromCharCode :: "byte \<Rightarrow> char" where
  "fromCharCode b = char_of (unat b)"

definition charCodeAt_u8 :: "char \<Rightarrow> byte" where
  "charCodeAt_u8 c = word_of_nat (of_char c)"

text \<open>
  \<^verbatim>\<open>btoa\<close> and \<^verbatim>\<open>atob\<close> are browser functions; they are modelled after the HTML
  standard: \<^verbatim>\<open>btoa\<close> is the base64 encoding of RFC 4648 with padding, \<^verbatim>\<open>atob\<close> is
  the forgiving base64 decoding (ASCII whitespace removed, one or two trailing
  \<^verbatim>\<open>=\<close> removed when the length is a multiple of four, failure on a length of
  1 modulo 4 or on a character outside the alphabet). The strings given to \<^verbatim>\<open>btoa\<close>
  here hold code units below 256 only, so its \<^verbatim>\<open>InvalidCharacterError\<close> cannot arise.
\<close>

definition b64_alphabet :: string where
  "b64_alphabet = ''ABCDEFGHIJKLMNOPQRSTUVWXYZabcdefghijklmnopqrstuvwxyz0123456789+/''"

definition b64_char :: "nat \<Rightarrow> char" where
  "b64_char n = b64_alphabet ! n"

definition b64_index :: "char \<Rightarrow> nat option" where
  "b64_index c = map_of (zip b64_alphabet [0..<64]) c"

fun sextets :: "nat list \<Rightarrow> nat list" where
  "sextets (a # b # c # rest) =
     [a div 4, (a mod 4) * 16 + b div 16, (b mod 16) * 4 + c div 64, c mod 64] @ sextets rest"
| "sextets [a, b] = [a div 4, (a mod 4) * 16 + b div 16, (b mod 16) * 4]"
| "sextets [a] = [a div 4, (a mod 4) * 16]"
| "sextets [] = []"

definition btoa :: "string \<Rightarrow> string" where
  "btoa s = map b64_char (sextets (map of_char s))
            @ replicate ((3 - length s mod 3) mod 3) (CHR ''='')"

definition ascii_whitespace :: "char \<Rightarrow> bool" where
  "ascii_whitespace c = (of_char c \<in> {9, 10, 12, 13, 32 :: nat})"

definition strip_padding :: "string \<Rightarrow> string" where
  "strip_padding d =
     (if length d mod 4 = 0 then
        (case rev d of
           c1 # c2 # r \<Rightarrow>
             if c1 = CHR ''='' \<and> c2 = CHR ''='' then rev r
             else if c1 = CHR ''='' then rev (c2 # r)
             else d
         | _ \<Rightarrow> d)
      else d)"

fun octets :: "nat list \<Rightarrow> nat list" where
  "octets (p # q # r # s # rest) =
     [p * 4 + q div 16, (q mod 16) * 16 + r div 4, (r mod 4) * 64 + s] @ octets rest"
| "octets [p, q, r] = [p * 4 + q div 16, (q mod 16) * 16 + r div 4]"
| "octets [p, q] = [p * 4 + q div 16]"
| "octets [p] = []"
| "octets [] = []"

definition atob :: "string \<Rightarrow> jsError + string" where
  "atob s =
     (let d = strip_padding (filter (\<lambda>c. \<not> ascii_whitespace c) s)
      in if length d mod 4 = 1 then Inl InvalidCharacterError
         else if list_ex (\<lambda>c. b64_index c = None) d then Inl InvalidCharacterError
         else Inr (map char_of (octets (map (\<lambda>c. the (b64_index c)) d))))"

text \<open>
  \<^verbatim>\<open>arrayBufferToBase64\<close>: the loop appends one character per byte to \<^verbatim>\<open>binary\<close>,
  then \<^verbatim>\<open>btoa(binary)\<close>.
\<close>

function binary_loop :: "byte list \<Rightarrow> nat \<Rightarrow> string \<Rightarrow> string" where
  "binary_loop bytes i binary =
     (if i < length bytes
      then binary_loop bytes (i + 1) (binary @ [fromCharCode (bytes ! i)])
      else binary)"
  by pat_completeness auto
termination
  by (relation "measure (\<lambda>(bytes, i, binary). length bytes - i)") auto

declare binary_loop.simps [simp del]

definition arrayBufferToBase64 :: "byte list \<Rightarrow> string" where
  "arrayBufferToBase64 buffer = btoa (binary_loop buffer 0 [])"

text \<open>
  \<^verbatim>\<open>base64ToArrayBuffer\<close>: \<^verbatim>\<open>atob\<close> may throw; otherwise a zero-filled
  \<^verbatim>\<open>Uint8Array\<close> of the string's length is filled index by index.
\<close>

function bytes_loop :: "string \<Rightarrow> nat \<Rightarrow> byte list \<Rightarrow> byte list" where
  "bytes_loop binaryString i bytes =
     (if i < length binaryString
      then bytes_loop binaryString (i + 1) (bytes[i := charCodeAt_u8 (binaryString ! i)])
      else bytes)"
  by pat_completeness auto
termination
  by (relation "measure (\<lambda>(s, i, bytes). length s - i)") auto

declare bytes_loop.simps [simp del]

definition base64ToArrayBuffer :: "string \<Rightarrow> jsError + byte list" where
  "base64ToArrayBuffer base64 =
     (case atob base64 of
        Inl e \<Rightarrow> Inl e
      | Inr binaryString \<Rightarrow>
          Inr (bytes_loop binaryString 0 (replicate (length binaryString) 0)))"

text \<open>
  Saving and loading the template list. \<^verbatim>\<open>saveTemplate\<close> and \<^verbatim>\<open>deleteTemplate\<close>
  write \<^verbatim>\<open>updated.map(t => ({...t, binary: arrayBufferToBase64(t.binary)}))\<close> to
  local storage; the effect run on mount maps \<^verbatim>\<open>base64ToArrayBuffer\<close> over what it
  reads, and an exception from any entry ends the whole effect. A saved template is a
  pair of its other fields (left abstract) and its binary; the text that
  \<^verbatim>\<open>JSON.stringify\<close> writes is taken to be read back by \<^verbatim>\<open>JSON.parse\<close> as it was.
\<close>

definition templatesForStorage :: "('m \<times> byte list) list \<Rightarrow> ('m \<times> string) list" where
  "templatesForStorage updated = map (\<lambda>(t, binary). (t, arrayBufferToBase64 binary)) updated"

fun templatesWithBinary :: "('m \<times> string) list \<Rightarrow> jsError + ('m \<times> byte list) list" where
  "templatesWithBinary [] = Inr []"
| "templatesWithBinary ((t, base64) # templates) =
     (case base64ToArrayBuffer base64 of
        Inl e \<Rightarrow> Inl e
      | Inr binary \<Rightarrow>
          (case templatesWithBinary templates of
             Inl e \<Rightarrow> Inl e
           | Inr rest \<Rightarrow> Inr ((t, binary) # rest)))"

section \<open>Date coercion of spreadsheet cells\<close>

text \<open>
  The literal \<^verbatim>\<open>0.0000001\<close> denotes the double nearest to it,
  \<^verbatim>\<open>0x1.ad7f29abcaf48p-24\<close>.
\<close>

definition double_0_0000001 :: real where
  "double_0_0000001 = 944473296573929 / 2 ^ 73"

text \<open>
  \<^verbatim>\<open>a % b\<close> on integral doubles: the remainder has the sign of the dividend and is
  exact.
\<close>

definition remainder :: "int \<Rightarrow> int \<Rightarrow> int" where
  "remainder a b = (if 0 \<le> a then a mod \<bar>b\<bar> else - ((- a) mod \<bar>b\<bar>))"

text \<open>
  \<^verbatim>\<open>excelDateToJSDate\<close>, line by line. Every \<^verbatim>\<open>+\<close>, \<^verbatim>\<open>-\<close>, \<^verbatim>\<open>*\<close> and
  \<^verbatim>\<open>/\<close> of the source is the platform's operation on doubles, with its rounding;
  \<^verbatim>\<open>Math.floor\<close> is exact. \<^verbatim>\<open>date_info\<close> stands for the time value given to
  \<^verbatim>\<open>new Date\<close>; its calendar fields and the final formatting come from the platform.
\<close>

definition excelDateToJSDate :: "platform \<Rightarrow> real \<Rightarrow> string" where
  "excelDateToJSDate P serial =
     (let utc_days = \<lfloor>doubleSub P serial 25569\<rfloor>;
          utc_value = doubleMul P (of_int utc_days) 86400;
          date_info = doubleMul P utc_value 1000;
          fractional_day =
            doubleAdd P (doubleSub P serial (of_int \<lfloor>serial\<rfloor>)) double_0_0000001;
          total_seconds = \<lfloor>doubleMul P 86400 fractional_day\<rfloor>;
          seconds = remainder total_seconds 60;
          total_seconds2 = doubleSub P (of_int total_seconds) (of_int seconds);
          hours = \<lfloor>doubleDiv P total_seconds2 (doubleMul P 60 60)\<rfloor>;
          minutes = remainder \<lfloor>doubleDiv P total_seconds2 60\<rfloor> 60
      in toLocaleDateString P
           (getFullYear P date_info, getMonth P date_info, getDate P date_info,
            hours, minutes, seconds))"

text \<open>
  \<^verbatim>\<open>processExcelData\<close>: for each row a fresh object \<^verbatim>\<open>processed\<close> is filled by
  assignment, key by key in the order of \<^verbatim>\<open>Object.keys(row)\<close>. A property assignment
  keeps the place of a key that is already there and appends a new one, which is
  \<^const>\<open>AList.update\<close>.
\<close>

definition coerceCell :: "platform \<Rightarrow> cellValue \<Rightarrow> cellValue" where
  "coerceCell P val =
     (case val of
        Num n \<Rightarrow> if n > 1 \<and> n < 73050 then Str (excelDateToJSDate P n) else Num n
      | Str s \<Rightarrow> Str s)"

definition processRow :: "platform \<Rightarrow> certificateData \<Rightarrow> certificateData" where
  "processRow P row =
     fold (\<lambda>key processed.
             case map_of row key of
               Some val \<Rightarrow> AList.update key (coerceCell P val) processed
             | None \<Rightarrow> processed)
          (keys row) []"

definition processExcelData :: "platform \<Rightarrow> certificateData list \<Rightarrow> certificateData list" where
  "processExcelData P jsonData = map (processRow P) jsonData"

section \<open>Placeholder extraction\<close>

text \<open>
  The scan \<^verbatim>\<open>/\{(\w+)\}|\{\{(\w+)\}\}|\[(\w+)\]/g\<close> over the document text.
  \<^verbatim>\<open>\w\<close> is a letter, a digit or the underscore. The closing delimiter is not a
  word character, so the greedy \<^verbatim>\<open>\w+\<close> takes the whole run of word characters.
\<close>

definition wordChar :: "char \<Rightarrow> bool" where
  "wordChar c =
     (let n = of_char c :: nat
      in (65 \<le> n \<and> n \<le> 90) \<or> (97 \<le> n \<and> n \<le> 122) \<or> (48 \<le> n \<and> n \<le> 57) \<or> n = 95)"

definition isPrefix :: "string \<Rightarrow> string \<Rightarrow> bool" where
  "isPrefix p s = (take (length p) s = p)"

text \<open>
  One alternative \<^verbatim>\<open>open (\w+) close\<close> tried at the start of \<open>s\<close>: the captured
  group and the length of the match.
\<close>

definition matchDelimited :: "string \<Rightarrow> string \<Rightarrow> string \<Rightarrow> (string \<times> nat) option" where
  "matchDelimited opn cls s =
     (if isPrefix opn s then
        (let w = takeWhile wordChar (drop (length opn) s)
         in if w \<noteq> [] \<and> isPrefix cls (drop (length opn + length w) s)
            then Some (w, length opn + length w + length cls)
            else None)
      else None)"

text \<open>
  The three alternatives in the regular expression's order; the result holds the three
  groups (at most one is defined) and the length of the match.
\<close>

definition matchPlaceholder ::
  "string \<Rightarrow> (string option \<times> string option \<times> string option \<times> nat) option" where
  "matchPlaceholder s =
     (case matchDelimited ''{'' ''}'' s of
        Some (w, n) \<Rightarrow> Some (Some w, None, None, n)
      | None \<Rightarrow>
          (case matchDelimited ''{{'' ''}}'' s of
             Some (w, n) \<Rightarrow> Some (None, Some w, None, n)
           | None \<Rightarrow>
               (case matchDelimited ''['' '']'' s of
                  Some (w, n) \<Rightarrow> Some (None, None, Some w, n)
                | None \<Rightarrow> None)))"

text \<open>
  \<^verbatim>\<open>a || b\<close> on captured groups: an undefined or empty string is falsy, and then
  the value is \<open>b\<close>.
\<close>

definition orGroup :: "string option \<Rightarrow> string option \<Rightarrow> string option" where
  "orGroup a b = (case a of Some s \<Rightarrow> if s \<noteq> [] then Some s else b | None \<Rightarrow> b)"

text \<open>\<^verbatim>\<open>found.add(placeholder)\<close> on a \<^verbatim>\<open>Set\<close>, which keeps insertion order.\<close>

definition setAdd :: "string \<Rightarrow> string list \<Rightarrow> string list" where
  "setAdd p found = (if p \<in> set found then found else found @ [p])"

text \<open>
  The loop \<^verbatim>\<open>while ((match = placeholderRegex.exec(text)) !== null)\<close>. The regular
  expression object is created by the call, so \<^verbatim>\<open>lastIndex\<close> starts at 0; the first
  argument is the text from \<^verbatim>\<open>lastIndex\<close> on. \<^verbatim>\<open>exec\<close> tries each position in turn;
  after a match \<^verbatim>\<open>lastIndex\<close> is the end of the match. The body is
  \<^verbatim>\<open>placeholder = match[1] || match[2] || match[3]\<close> and
  \<^verbatim>\<open>if (placeholder) found.add(placeholder)\<close>.
\<close>

fun scanPlaceholders :: "string \<Rightarrow> string list \<Rightarrow> string list" where
  "scanPlaceholders [] found = found"
| "scanPlaceholders (c # cs) found =
     (case matchPlaceholder (c # cs) of
        Some (g1, g2, g3, n) \<Rightarrow>
          (let placeholder = orGroup (orGroup g1 g2) g3
           in scanPlaceholders (drop (n - 1) cs)
                (case placeholder of
                   Some p \<Rightarrow> if p \<noteq> [] then setAdd p found else found
                 | None \<Rightarrow> found))
      | None \<Rightarrow> scanPlaceholders cs found)"

definition extractPlaceholders :: "string \<Rightarrow> string list" where
  "extractPlaceholders text = scanPlaceholders text []"

section \<open>The HTML preview merge\<close>

text \<open>
  \<^verbatim>\<open>record[key]?.toString() || ''\<close>: an absent value and an empty string both give
  the empty string.
\<close>

definition toString :: "platform \<Rightarrow> cellValue \<Rightarrow> string" where
  "toString P val = (case val of Str s \<Rightarrow> s | Num n \<Rightarrow> numberToString P n)"

definition valueString :: "platform \<Rightarrow> cellValue option \<Rightarrow> string" where
  "valueString P v =
     (case v of
        None \<Rightarrow> []
      | Some val \<Rightarrow> (let s = toString P val in if s = [] then [] else s))"

text \<open>
  The key is pasted into the pattern unescaped:
  \<^verbatim>\<open>new RegExp(`\\{${key}\\}`, 'gi')\<close>. The three pattern sources built for a key
  are the following strings (the template literal turns \<^verbatim>\<open>\\\<close> into one backslash).
\<close>

definition backslash :: char where
  "backslash = CHR 0x5C"

definition bracePattern :: "string \<Rightarrow> string" where
  "bracePattern key = [backslash, CHR ''{''] @ key @ [backslash, CHR ''}'']"

definition doubleBracePattern :: "string \<Rightarrow> string" where
  "doubleBracePattern key =
     [backslash, CHR ''{'', backslash, CHR ''{''] @ key @ [backslash, CHR ''}'', backslash, CHR ''}'']"

definition bracketPattern :: "string \<Rightarrow> string" where
  "bracketPattern key = [backslash, CHR ''[''] @ key @ [backslash, CHR '']'']"

text \<open>
  A character stands for itself in a pattern unless it is one of the syntax characters
  \<^verbatim>\<open>^ $ \ . * + ? ( ) [ ] { } |\<close>. A key without syntax characters is called
  literal; every name the extraction scan finds is one.
\<close>

definition regexSyntaxChar :: "char \<Rightarrow> bool" where
  "regexSyntaxChar c =
     (c \<in> set [CHR ''^'', CHR ''$'', CHR 0x5C, CHR ''.'', CHR ''*'', CHR ''+'', CHR ''?'',
                CHR ''('', CHR '')'', CHR ''['', CHR '']'', CHR ''{'', CHR ''}'', CHR ''|''])"

definition regexLiteral :: "string \<Rightarrow> bool" where
  "regexLiteral key = list_all (\<lambda>c. \<not> regexSyntaxChar c) key"

text \<open>
  A pattern source is plain text when it is made of characters that stand for
  themselves and of the escaped brackets \<^verbatim>\<open>\{\<close>, \<^verbatim>\<open>\}\<close>, \<^verbatim>\<open>\[\<close>,
  \<^verbatim>\<open>\]\<close>; \<open>literalPattern\<close> gives the text such a pattern matches, and
  \<open>None\<close> for every other source.
\<close>

fun literalPattern :: "string \<Rightarrow> string option" where
  "literalPattern [] = Some []"
| "literalPattern (c # r) =
     (if c = backslash then
        (case r of
           [] \<Rightarrow> None
         | d # r2 \<Rightarrow>
             if d \<in> set ''{}[]'' then map_option ((#) d) (literalPattern r2) else None)
      else if regexSyntaxChar c then None
      else map_option ((#) c) (literalPattern r))"

text \<open>
  The \<^verbatim>\<open>i\<close> flag compares canonicalised code units: a lower-case letter (ASCII or
  Latin-1) is replaced by its upper-case form.
\<close>

definition canonicalize :: "char \<Rightarrow> char" where
  "canonicalize c =
     (let n = of_char c :: nat
      in if (97 \<le> n \<and> n \<le> 122) \<or> (224 \<le> n \<and> n \<le> 254 \<and> n \<noteq> 247)
         then char_of (n - 32) else c)"

definition matchesAt :: "string \<Rightarrow> string \<Rightarrow> bool" where
  "matchesAt pat s =
     (length pat \<le> length s \<and> map canonicalize (take (length pat) s) = map canonicalize pat)"

text \<open>
  The replacement text of \<^verbatim>\<open>String.prototype.replace\<close> for a pattern without
  capture groups: \<^verbatim>\<open>$$\<close> is a dollar sign, \<^verbatim>\<open>$&\<close> the matched text,
  \<^verbatim>\<open>$`\<close> the text before the match, \<^verbatim>\<open>$'\<close> the text after it; everything
  else is copied.
\<close>

fun getSubstitution :: "string \<Rightarrow> string \<Rightarrow> string \<Rightarrow> string \<Rightarrow> string" where
  "getSubstitution matched preceding following [] = []"
| "getSubstitution matched preceding following [c] = [c]"
| "getSubstitution matched preceding following (c # d # r) =
     (if c = CHR ''$'' then
        (if d = CHR ''$'' then CHR ''$'' # getSubstitution matched preceding following r
         else if d = CHR ''&'' then matched @ getSubstitution matched preceding following r
         else if d = CHR 0x60 then preceding @ getSubstitution matched preceding following r
         else if d = CHR 0x27 then following @ getSubstitution matched preceding following r
         else c # getSubstitution matched preceding following (d # r))
      else c # getSubstitution matched preceding following (d # r))"

text \<open>
  \<^verbatim>\<open>s.replace(re, value)\<close> with a global, case-insensitive plain-text pattern: the
  text is scanned from the left, every match is replaced and the scan goes on after it.
  \<open>preceding\<close> is the text already passed. The pattern is never empty here (it
  starts with a bracket), so a match consumes the first character and
  \<open>length pat - 1\<close> more.
\<close>

fun replaceScan :: "string \<Rightarrow> string \<Rightarrow> string \<Rightarrow> string \<Rightarrow> string" where
  "replaceScan pat val preceding [] = []"
| "replaceScan pat val preceding (c # cs) =
     (if matchesAt pat (c # cs)
      then getSubstitution (take (length pat) (c # cs)) preceding (drop (length pat - 1) cs) val
           @ replaceScan pat val (preceding @ take (length pat) (c # cs)) (drop (length pat - 1) cs)
      else c # replaceScan pat val (preceding @ [c]) cs)"

definition replaceAll :: "string \<Rightarrow> string \<Rightarrow> string \<Rightarrow> string" where
  "replaceAll pat val s = replaceScan pat val [] s"

text \<open>
  \<^verbatim>\<open>subject.replace(new RegExp(source, 'gi'), replacement)\<close>. For a plain-text
  pattern the constructor succeeds and the result is the one above. For any other
  source the platform's engine decides: the constructor throws a \<^verbatim>\<open>SyntaxError\<close>,
  or the replacement is carried out with the key read as a pattern.
\<close>

definition replaceWith :: "platform \<Rightarrow> string \<Rightarrow> string \<Rightarrow> string \<Rightarrow> jsError + string" where
  "replaceWith P source replacement subject =
     (case literalPattern source of
        Some pat \<Rightarrow> Inr (replaceAll pat replacement subject)
      | None \<Rightarrow>
          if regExpSyntaxError P source then Inl SyntaxError
          else Inr (regExpReplace P source replacement subject))"

text \<open>
  The body of the \<^verbatim>\<open>forEach\<close> in \<^verbatim>\<open>mergeCertificate\<close>: the three replacements
  for one key, in the order of the source. An exception ends the function.
\<close>

definition mergeKey :: "platform \<Rightarrow> certificateData \<Rightarrow> string \<Rightarrow> string \<Rightarrow> jsError + string" where
  "mergeKey P record key merged =
     (let val = valueString P (map_of record key)
      in case replaceWith P (bracePattern key) val merged of
           Inl e \<Rightarrow> Inl e
         | Inr merged1 \<Rightarrow>
             (case replaceWith P (doubleBracePattern key) val merged1 of
                Inl e \<Rightarrow> Inl e
              | Inr merged2 \<Rightarrow> replaceWith P (bracketPattern key) val merged2))"

fun mergeKeys :: "platform \<Rightarrow> certificateData \<Rightarrow> string list \<Rightarrow> string \<Rightarrow> jsError + string" where
  "mergeKeys P record [] merged = Inr merged"
| "mergeKeys P record (key # ks) merged =
     (case mergeKey P record key merged of
        Inl e \<Rightarrow> Inl e
      | Inr merged2 \<Rightarrow> mergeKeys P record ks merged2)"

definition mergeCertificate :: "platform \<Rightarrow> string \<Rightarrow> certificateData \<Rightarrow> jsError + string" where
  "mergeCertificate P template record = mergeKeys P record (keys record) template"

section \<open>The DOCX export\<close>

text \<open>
  \<^verbatim>\<open>String.prototype.toLowerCase\<close> on code units below 256: the ASCII and Latin-1
  capital letters move up by 32.
\<close>

definition toLowerCase_char :: "char \<Rightarrow> char" where
  "toLowerCase_char c =
     (let n = of_char c :: nat
      in if (65 \<le> n \<and> n \<le> 90) \<or> (192 \<le> n \<and> n \<le> 222 \<and> n \<noteq> 215)
         then char_of (n + 32) else c)"

definition toLowerCase :: "string \<Rightarrow> string" where
  "toLowerCase s = map toLowerCase_char s"

text \<open>The option \<^verbatim>\<open>nullGetter: () => ''\<close> given to docxtemplater.\<close>

definition nullGetter :: "string \<Rightarrow> string" where
  "nullGetter tag = []"

text \<open>
  The \<^verbatim>\<open>placeholders.forEach\<close> of \<^verbatim>\<open>generateDocx\<close> that fills
  \<^verbatim>\<open>templateData\<close>. \<^verbatim>\<open>Array.prototype.find\<close> returns the first key that passes
  the test; \<^verbatim>\<open>if (matchingKey)\<close> is false for no key and for the empty key.
\<close>

definition matchingKey :: "certificateData \<Rightarrow> string \<Rightarrow> string option" where
  "matchingKey record placeholder =
     find (\<lambda>key. toLowerCase key = toLowerCase placeholder) (keys record)"

definition placeholderValue :: "platform \<Rightarrow> certificateData \<Rightarrow> string \<Rightarrow> string" where
  "placeholderValue P record placeholder =
     (case matchingKey record placeholder of
        Some key \<Rightarrow> if key \<noteq> [] then valueString P (map_of record key) else []
      | None \<Rightarrow> [])"

text \<open>
  \<^verbatim>\<open>templateData\<close> starts as the plain object \<^verbatim>\<open>{}\<close> and is filled by
  \<^verbatim>\<open>templateData[placeholder] = ...\<close>; it is modelled by its own properties, a map
  from names to strings. The assignment creates or overwrites the property, except for
  the name \<^verbatim>\<open>__proto__\<close>: there it calls the setter inherited from
  \<^verbatim>\<open>Object.prototype\<close>, which ignores a string, and no property is created. The
  placeholders are names read from the document, and \<^verbatim>\<open>__proto__\<close> is a name the
  extraction scan accepts.
\<close>

definition assignProperty :: "string \<Rightarrow> string \<Rightarrow> (string \<rightharpoonup> string) \<Rightarrow> (string \<rightharpoonup> string)" where
  "assignProperty key val obj = (if key = ''__proto__'' then obj else obj(key \<mapsto> val))"

definition templateData ::
  "platform \<Rightarrow> string list \<Rightarrow> certificateData \<Rightarrow> (string \<rightharpoonup> string)" where
  "templateData P phs record =
     fold (\<lambda>placeholder td. assignProperty placeholder (placeholderValue P record placeholder) td)
          phs Map.empty"

definition generateDocx :: "platform \<Rightarrow> appState \<Rightarrow> certificateData \<Rightarrow> jsError + byte list" where
  "generateDocx P st record =
     (case docxBinary st of
        None \<Rightarrow> Inl (Error ''No template loaded'')
      | Some binary \<Rightarrow> docxRender P binary nullGetter (templateData P (placeholders st) record))"

section \<open>Downloads\<close>

text \<open>Decimal digits of a natural number, for \<^verbatim>\<open>`certificate_${idx + 1}`\<close>.\<close>

fun decimal :: "nat \<Rightarrow> string" where
  "decimal n =
     (if n < 10 then [char_of (48 + n)] else decimal (n div 10) @ [char_of (48 + n mod 10)])"

declare decimal.simps [simp del]

text \<open>
  \<^verbatim>\<open>record.name || record.Name || `certificate_${idx + 1}`\<close>, then
  \<^verbatim>\<open>name.toString()\<close>. A value is truthy unless it is absent, the empty string or
  the number 0.
\<close>

definition truthy :: "cellValue option \<Rightarrow> bool" where
  "truthy v = (case v of None \<Rightarrow> False | Some (Str s) \<Rightarrow> s \<noteq> [] | Some (Num n) \<Rightarrow> n \<noteq> 0)"

definition certificateName :: "platform \<Rightarrow> certificateData \<Rightarrow> nat \<Rightarrow> string" where
  "certificateName P record idx =
     (if truthy (map_of record ''name'') then toString P (the (map_of record ''name''))
      else if truthy (map_of record ''Name'') then toString P (the (map_of record ''Name''))
      else ''certificate_'' @ decimal (idx + 1))"

text \<open>
  The callback given to \<^verbatim>\<open>setTimeout\<close> by \<^verbatim>\<open>handleDownloadAll\<close> and
  \<^verbatim>\<open>handleDownloadRange\<close>: \<^verbatim>\<open>generateDocx\<close> under \<^verbatim>\<open>try\<close>, then
  \<^verbatim>\<open>saveAs(blob, `${filename}.docx`)\<close>; an exception is logged and nothing else
  happens. The callback reads the \<^verbatim>\<open>data\<close>, template and placeholders of the render in
  which the handler ran, here \<open>st\<close>. Reading \<^verbatim>\<open>data[i]\<close> outside the array
  gives \<^verbatim>\<open>undefined\<close>, on which \<^verbatim>\<open>generateDocx\<close> throws a \<^verbatim>\<open>TypeError\<close>.
\<close>

definition downloadCallback :: "platform \<Rightarrow> appState \<Rightarrow> int \<Rightarrow> event" where
  "downloadCallback P st i =
     (if 0 \<le> i \<and> i < int (length (data st)) then
        (let record = data st ! nat i
         in case generateDocx P st record of
              Inl e \<Rightarrow> ConsoleError (''Error generating certificate '' @ decimal (nat i + 1) @ '':'')
            | Inr blob \<Rightarrow> Download (certificateName P record (nat i) @ ''.docx'') blob)
      else ConsoleError (''Error generating certificate '' @ decimal (nat (i + 1)) @ '':''))"

text \<open>
  The timers fire in the order of their delays, timers of equal delay in the order in
  which they were set.
\<close>

definition fireTimers :: "platform \<Rightarrow> appState \<Rightarrow> event list" where
  "fireTimers P st = map (\<lambda>t. downloadCallback P st (index t)) (sort_key delay (timers st))"

text \<open>\<^verbatim>\<open>handleDownloadAll\<close>: \<^verbatim>\<open>data.forEach((record, idx) => setTimeout(..., idx * 500))\<close>.\<close>

definition setTimeout :: "int \<Rightarrow> int \<Rightarrow> appState \<Rightarrow> appState" where
  "setTimeout i ms st = st\<lparr>timers := timers st @ [\<lparr>delay = ms, index = i\<rparr>]\<rparr>"

definition handleDownloadAll :: "appState \<Rightarrow> appState" where
  "handleDownloadAll st =
     fold (\<lambda>idx s. setTimeout (int idx) (int idx * 500) s) [0..<length (data st)] st"

text \<open>\<^verbatim>\<open>handleDownloadRange\<close>: the guard, the \<^verbatim>\<open>for\<close> loop and the closing of the dialog.\<close>

function range_loop :: "int \<Rightarrow> appState \<Rightarrow> appState" where
  "range_loop i st =
     (if i < rangeEnd st
      then range_loop (i + 1) (setTimeout i ((i - rangeStart st + 1) * 500) st)
      else st)"
  by pat_completeness auto
termination
  by (relation "measure (\<lambda>(i, st). nat (rangeEnd st - i))") (auto simp: setTimeout_def)

declare range_loop.simps [simp del]

definition handleDownloadRange :: "appState \<Rightarrow> appState" where
  "handleDownloadRange st =
     (if rangeStart st < 1 \<or> rangeEnd st > int (length (data st)) \<or> rangeStart st > rangeEnd st
      then st\<lparr>alerts := alerts st @ [''Invalid range. Please check your input.'']\<rparr>
      else (range_loop (rangeStart st - 1) st)\<lparr>showRangeDialog := False\<rparr>)"

section \<open>Spreadsheet upload\<close>

text \<open>
  The \<^verbatim>\<open>reader.onload\<close> handler of \<^verbatim>\<open>handleExcelUpload\<close>. The outcome of
  \<^verbatim>\<open>XLSX.read\<close> and \<^verbatim>\<open>XLSX.utils.sheet_to_json\<close> is its argument: an exception
  or the rows. Nothing after the parse throws, so the \<^verbatim>\<open>catch\<close> branch is reached
  from the parse only.
\<close>

definition handleExcelUpload_onload ::
  "platform \<Rightarrow> jsError + certificateData list \<Rightarrow> appState \<Rightarrow> appState" where
  "handleExcelUpload_onload P parsed st =
     (case parsed of
        Inl e \<Rightarrow>
          st\<lparr>consoleErrors := consoleErrors st @ [''Error reading Excel:''],
             alerts := alerts st @ [''Error reading Excel file. Please try again.'']\<rparr>
      | Inr jsonData \<Rightarrow>
          if length jsonData > 0 then
            (let processedData = processExcelData P jsonData
             in st\<lparr>data := processedData,
                   excelColumns := keys (hd jsonData),
                   currentIndex := 0,
                   rangeEnd := int (length processedData),
                   uploadStatus := (uploadStatus st)\<lparr>excel := True\<rparr>\<rparr>)
          else st)"

text \<open>
  \<^verbatim>\<open>handleExcelUpload\<close> itself: without a file it returns at once; with one, the
  reader later calls the handler above.
\<close>

definition handleExcelUpload ::
  "platform \<Rightarrow> (jsError + certificateData list) option \<Rightarrow> appState \<Rightarrow> appState" where
  "handleExcelUpload P file st =
     (case file of None \<Rightarrow> st | Some parsed \<Rightarrow> handleExcelUpload_onload P parsed st)"

section \<open>The hidden state: regular expression objects and the component\<close>

text \<open>
  A regular expression object with the \<^verbatim>\<open>g\<close> flag carries the mutable property
  \<^verbatim>\<open>lastIndex\<close>, which \<^verbatim>\<open>exec\<close> and \<^verbatim>\<open>replace\<close> read and write. To state that
  the merge and the extraction scan depend on their arguments only, both are modelled
  a second time as runs in a world that holds what they could read and write besides
  their arguments: the state of the component, and the \<^verbatim>\<open>lastIndex\<close> of every
  regular expression object made so far (an object is named by its position in the
  list).
\<close>

record world =
  app :: appState
  regExps :: "nat list"

text \<open>A new regular expression object: \<^verbatim>\<open>lastIndex\<close> is 0.\<close>

definition newRegExp :: "nat list \<Rightarrow> nat list \<times> nat" where
  "newRegExp s = (s @ [0], length s)"

text \<open>
  The search of \<^verbatim>\<open>exec\<close> for the placeholder pattern: each position from \<open>i\<close>
  on is tried in turn; the result is the position of the first match, its groups and
  its length.
\<close>

fun findMatch ::
  "string \<Rightarrow> nat \<Rightarrow> (nat \<times> string option \<times> string option \<times> string option \<times> nat) option" where
  "findMatch [] i = None"
| "findMatch (c # cs) i =
     (case matchPlaceholder (c # cs) of
        Some (g1, g2, g3, n) \<Rightarrow> Some (i, g1, g2, g3, n)
      | None \<Rightarrow> findMatch cs (i + 1))"

text \<open>
  \<^verbatim>\<open>placeholderRegex.exec(text)\<close> for the global pattern: it reads
  \<^verbatim>\<open>lastIndex\<close>; beyond the end of the text, or when the search from there fails, it
  sets \<^verbatim>\<open>lastIndex\<close> to 0 and returns \<^verbatim>\<open>null\<close>; on a match it sets
  \<^verbatim>\<open>lastIndex\<close> to the end of the match and returns the groups.
\<close>

definition regExpExec ::
  "string \<Rightarrow> nat \<Rightarrow> nat list
     \<Rightarrow> (string option \<times> string option \<times> string option) option \<times> nat list" where
  "regExpExec txt re s =
     (let lastIndex = s ! re
      in if lastIndex > length txt then (None, s[re := 0])
         else (case findMatch (drop lastIndex txt) lastIndex of
                 None \<Rightarrow> (None, s[re := 0])
               | Some (i, g1, g2, g3, n) \<Rightarrow> (Some (g1, g2, g3), s[re := i + n])))"

text \<open>
  The loop \<^verbatim>\<open>while ((match = placeholderRegex.exec(text)) !== null)\<close> with its body,
  as the source has it. Nothing in its shape says that it ends; that it returns is
  proved below.
\<close>

partial_function (option) extractionLoop ::
  "string \<Rightarrow> nat \<Rightarrow> nat list \<Rightarrow> string list \<Rightarrow> (nat list \<times> string list) option" where
  "extractionLoop txt re s found =
     (case regExpExec txt re s of
        (None, s2) \<Rightarrow> Some (s2, found)
      | (Some (g1, g2, g3), s2) \<Rightarrow>
          extractionLoop txt re s2
            (let placeholder = orGroup (orGroup g1 g2) g3
             in case placeholder of
                  Some p \<Rightarrow> if p \<noteq> [] then setAdd p found else found
                | None \<Rightarrow> found))"

text \<open>
  The extraction of \<^verbatim>\<open>handleDocxUpload\<close> and \<^verbatim>\<open>loadTemplateFromHandle\<close>: the
  regular expression literal makes a new object, \<^verbatim>\<open>found\<close> starts empty, the loop
  runs. \<open>None\<close> stands for a run that does not return.
\<close>

definition extractPlaceholders_run :: "world \<Rightarrow> string \<Rightarrow> (world \<times> string list) option" where
  "extractPlaceholders_run w txt =
     (let (s1, placeholderRegex) = newRegExp (regExps w)
      in case extractionLoop txt placeholderRegex s1 [] of
           None \<Rightarrow> None
         | Some (s2, found) \<Rightarrow> Some (w\<lparr>regExps := s2\<rparr>, found))"

text \<open>
  \<^verbatim>\<open>new RegExp(source, 'gi')\<close> throws or makes a new object;
  \<^verbatim>\<open>subject.replace(re, replacement)\<close> with a global regular expression sets
  \<^verbatim>\<open>lastIndex\<close> to 0 before it searches and leaves it at 0.
\<close>

definition newRegExp_gi :: "platform \<Rightarrow> string \<Rightarrow> nat list \<Rightarrow> jsError + (nat list \<times> nat)" where
  "newRegExp_gi P source s =
     (if literalPattern source = None \<and> regExpSyntaxError P source then Inl SyntaxError
      else Inr (newRegExp s))"

definition replace_run ::
  "platform \<Rightarrow> string \<Rightarrow> nat \<Rightarrow> string \<Rightarrow> string \<Rightarrow> nat list \<Rightarrow> nat list \<times> string" where
  "replace_run P source re replacement subject s =
     (s[re := 0],
      case literalPattern source of
        Some pat \<Rightarrow> replaceAll pat replacement subject
      | None \<Rightarrow> regExpReplace P source replacement subject)"

definition replaceWith_run ::
  "platform \<Rightarrow> string \<Rightarrow> string \<Rightarrow> string \<Rightarrow> nat list \<Rightarrow> nat list \<times> (jsError + string)" where
  "replaceWith_run P source replacement subject s =
     (case newRegExp_gi P source s of
        Inl e \<Rightarrow> (s, Inl e)
      | Inr (s1, re) \<Rightarrow>
          (let (s2, result) = replace_run P source re replacement subject s1
           in (s2, Inr result)))"

definition mergeKey_run ::
  "platform \<Rightarrow> certificateData \<Rightarrow> string \<Rightarrow> string \<Rightarrow> nat list \<Rightarrow> nat list \<times> (jsError + string)" where
  "mergeKey_run P record key merged s =
     (let val = valueString P (map_of record key)
      in case replaceWith_run P (bracePattern key) val merged s of
           (s1, Inl e) \<Rightarrow> (s1, Inl e)
         | (s1, Inr merged1) \<Rightarrow>
             (case replaceWith_run P (doubleBracePattern key) val merged1 s1 of
                (s2, Inl e) \<Rightarrow> (s2, Inl e)
              | (s2, Inr merged2) \<Rightarrow> replaceWith_run P (bracketPattern key) val merged2 s2))"

fun mergeKeys_run ::
  "platform \<Rightarrow> certificateData \<Rightarrow> string list \<Rightarrow> string \<Rightarrow> nat list \<Rightarrow> nat list \<times> (jsError + string)" where
  "mergeKeys_run P record [] merged s = (s, Inr merged)"
| "mergeKeys_run P record (key # ks) merged s =
     (case mergeKey_run P record key merged s of
        (s1, Inl e) \<Rightarrow> (s1, Inl e)
      | (s1, Inr merged2) \<Rightarrow> mergeKeys_run P record ks merged2 s1)"

definition mergeCertificate_run ::
  "platform \<Rightarrow> string \<Rightarrow> certificateData \<Rightarrow> world \<Rightarrow> world \<times> (jsError + string)" where
  "mergeCertificate_run P template record w =
     (let (s, result) = mergeKeys_run P record (keys record) template (regExps w)
      in (w\<lparr>regExps := s\<rparr>, result))"

section \<open>Occurrences of a key in a template\<close>



section \<open>A platform and a state for the worked examples\<close>

text \<open>
  The examples need some platform; this one prints the natural numbers in decimal,
  computes without rounding and answers every date with the first of January 2000. Its
  renderer returns the template binary as it is. Its regular expression engine is never
  asked in the examples but for the pattern \<^verbatim>\<open>\{(\}\<close>, which it rejects as every
  engine does (an unterminated group); it rejects every other pattern that is not plain
  text as well.
\<close>

definition examplePlatform :: platform where
  "examplePlatform =
     \<lparr>numberToString = (\<lambda>x. if x = of_int \<lfloor>x\<rfloor> \<and> 0 \<le> x then decimal (nat \<lfloor>x\<rfloor>) else ''?''),
      doubleAdd = (\<lambda>x y. x + y),
      doubleSub = (\<lambda>x y. x - y),
      doubleMul = (\<lambda>x y. x * y),
      doubleDiv = (\<lambda>x y. x / y),
      getFullYear = (\<lambda>t. 2000),
      getMonth = (\<lambda>t. 0),
      getDate = (\<lambda>t. 1),
      toLocaleDateString = (\<lambda>d. ''January 1, 2000''),
      regExpSyntaxError = (\<lambda>source. True),
      regExpReplace = (\<lambda>source replacement subject. subject),
      docxRender = (\<lambda>binary getter td. Inr binary)\<rparr>"

definition exampleState :: "certificateData list \<Rightarrow> appState" where
  "exampleState rows =
     \<lparr>data = rows, docxBinary = Some [80, 75], currentIndex = 0,
      uploadStatus = \<lparr>docx = True, excel = True\<rparr>,
      placeholders = [''name''], excelColumns = [''name''],
      showRangeDialog = True, rangeStart = 1, rangeEnd = int (length rows),
      alerts = [], consoleErrors = [], timers = []\<rparr>"

section \<open>Base64 round trip\<close>

lemma b64_alphabet_length: "length b64_alphabet = 64"
  by (simp add: b64_alphabet_def)

lemma b64_alphabet_distinct: "distinct b64_alphabet"
  by (simp add: b64_alphabet_def)

lemma b64_index_char: "n < 64 \<Longrightarrow> b64_index (b64_char n) = Some n"
  unfolding b64_index_def b64_char_def
  using map_of_zip_nth [of b64_alphabet "[0..<64]" n]
  by (simp add: b64_alphabet_length b64_alphabet_distinct)

lemma b64_char_not_eq: "n < 64 \<Longrightarrow> b64_char n \<noteq> CHR ''=''"
proof
  assume n: "n < 64" and e: "b64_char n = CHR ''=''"
  have "b64_char n \<in> set b64_alphabet"
    unfolding b64_char_def using n by (simp add: b64_alphabet_length)
  with e show False by (simp add: b64_alphabet_def)
qed

lemma b64_char_not_ws: "n < 64 \<Longrightarrow> \<not> ascii_whitespace (b64_char n)"
proof
  assume n: "n < 64" and e: "ascii_whitespace (b64_char n)"
  have "b64_char n \<in> set b64_alphabet"
    unfolding b64_char_def using n by (simp add: b64_alphabet_length)
  with e show False by (auto simp add: b64_alphabet_def ascii_whitespace_def)
qed




lemma div16_bound: "b < 256 \<Longrightarrow> b div 16 < (16::nat)"
  by (simp add: less_mult_imp_div_less)

lemma div64_bound: "c < 256 \<Longrightarrow> c div 64 < (4::nat)"
  by (simp add: less_mult_imp_div_less)

lemma div4_bound: "a < 256 \<Longrightarrow> a div 4 < (64::nat)"
  by (simp add: less_mult_imp_div_less)

lemma sextet2_bound: "x < 4 \<Longrightarrow> y < 16 \<Longrightarrow> x * 16 + y < (64::nat)"
  by linarith

lemma sextet3_bound: "x < 16 \<Longrightarrow> y < 4 \<Longrightarrow> x * 4 + y < (64::nat)"
  by linarith

lemma octet1: "y < 16 \<Longrightarrow> a div 4 * 4 + ((a mod 4) * 16 + y) div 16 = (a::nat)"
  by simp

lemma octet2:
  "y < 16 \<Longrightarrow> z < 4 \<Longrightarrow>
     ((x * 16 + y) mod 16) * 16 + ((b mod 16) * 4 + z) div 4 = y * 16 + b mod (16::nat)"
  by simp

lemma octet3: "z < 4 \<Longrightarrow> (((x::nat) * 4 + z) mod 4) * 64 + c mod 64 = z * 64 + c mod 64"
  by simp

lemma sextets_bound: "\<forall>x\<in>set bs. x < 256 \<Longrightarrow> \<forall>s\<in>set (sextets bs). s < 64"
proof (induction bs rule: sextets.induct)
  case (1 a b c rest)
  then have "a < 256" "b < 256" "c < 256" by simp_all
  then have "a div 4 < 64" "(a mod 4) * 16 + b div 16 < 64" "(b mod 16) * 4 + c div 64 < 64"
    by (simp_all add: div4_bound sextet2_bound sextet3_bound div16_bound div64_bound)
  with 1 show ?case by simp
next
  case (2 a b)
  then have "a < 256" "b < 256" by simp_all
  then have "a div 4 < 64" "(a mod 4) * 16 + b div 16 < 64" "(b mod 16) * 4 + 0 < 64"
    by (simp_all add: div4_bound sextet2_bound sextet3_bound div16_bound del: add_0_right)
  then show ?case by simp
next
  case (3 a)
  then have "a < 256" by simp
  then have "a div 4 < 64" "(a mod 4) * 16 + 0 < 64"
    by (simp_all add: div4_bound sextet2_bound del: add_0_right)
  then show ?case by simp
next
  case 4
  show ?case by simp
qed

lemma octets_sextets: "\<forall>x\<in>set bs. x < 256 \<Longrightarrow> octets (sextets bs) = bs"
proof (induction bs rule: sextets.induct)
  case (1 a b c rest)
  then have "b < 256" "c < 256" by simp_all
  then have b: "b div 16 < 16" and c: "c div 64 < 4"
    by (simp_all add: div16_bound div64_bound)
  have "a div 4 * 4 + ((a mod 4) * 16 + b div 16) div 16 = a"
    using b by (rule octet1)
  moreover have "(((a mod 4) * 16 + b div 16) mod 16) * 16 + ((b mod 16) * 4 + c div 64) div 4 = b"
    using octet2 [OF b c, of "a mod 4" b] by simp
  moreover have "(((b mod 16) * 4 + c div 64) mod 4) * 64 + c mod 64 = c"
    using octet3 [OF c, of "b mod 16" c] by simp
  ultimately show ?case using 1 by simp
next
  case (2 a b)
  then have "b < 256" by simp
  then have b: "b div 16 < 16" by (simp add: div16_bound)
  have "a div 4 * 4 + ((a mod 4) * 16 + b div 16) div 16 = a"
    using b by (rule octet1)
  moreover have "(((a mod 4) * 16 + b div 16) mod 16) * 16 + ((b mod 16) * 4) div 4 = b"
    using octet2 [OF b, of 0 "a mod 4" b] by simp
  ultimately show ?case by simp
next
  case (3 a)
  have "a div 4 * 4 + ((a mod 4) * 16) div 16 = a"
    using octet1 [of 0 a] by simp
  then show ?case by simp
next
  case 4
  show ?case by simp
qed

lemma length_sextets:
  "length (sextets bs) =
     4 * (length bs div 3) + (if length bs mod 3 = 0 then 0 else length bs mod 3 + 1)"
proof (induction bs rule: sextets.induct)
  case (1 a b c rest)
  have "length (a # b # c # rest) = length rest + 3" by simp
  then have "length (a # b # c # rest) div 3 = length rest div 3 + 1"
    "length (a # b # c # rest) mod 3 = length rest mod 3" by simp_all
  with 1 show ?case by simp
qed simp_all


lemma binary_loop_map:
  "binary_loop bytes i binary = binary @ map fromCharCode (drop i bytes)"
proof (induction bytes i binary rule: binary_loop.induct)
  case (1 bytes i binary)
  show ?case
  proof (cases "i < length bytes")
    case True
    then have "drop i bytes = bytes ! i # drop (Suc i) bytes"
      by (simp add: Cons_nth_drop_Suc)
    with True 1 show ?thesis by (simp add: binary_loop.simps [of bytes i binary])
  next
    case False
    then show ?thesis by (simp add: binary_loop.simps [of bytes i binary])
  qed
qed

lemma bytes_loop_map:
  "length bytes = length s \<Longrightarrow>
     bytes_loop s i bytes = take i bytes @ map charCodeAt_u8 (drop i s)"
proof (induction s i bytes rule: bytes_loop.induct)
  case (1 s i bytes)
  show ?case
  proof (cases "i < length s")
    case True
    have d: "drop i s = s ! i # drop (Suc i) s"
      using True by (simp add: Cons_nth_drop_Suc)
    have t: "take (Suc i) (bytes[i := charCodeAt_u8 (s ! i)]) = take i bytes @ [charCodeAt_u8 (s ! i)]"
      using True "1.prems" by (simp add: take_Suc_conv_app_nth)
    have "bytes_loop s i bytes = bytes_loop s (i + 1) (bytes[i := charCodeAt_u8 (s ! i)])"
      using True by (simp add: bytes_loop.simps [of s i bytes])
    also have "\<dots> = take (i + 1) (bytes[i := charCodeAt_u8 (s ! i)]) @ map charCodeAt_u8 (drop (i + 1) s)"
      using True "1.prems" by (intro "1.IH") simp_all
    also have "\<dots> = take i bytes @ map charCodeAt_u8 (drop i s)"
      using t d by simp
    finally show ?thesis .
  next
    case False
    with "1.prems" show ?thesis by (simp add: bytes_loop.simps [of s i bytes])
  qed
qed

lemma charCodeAt_fromCharCode: "charCodeAt_u8 (fromCharCode b) = b"
proof -
  have "unat b < 256" using unsigned_less [of b] by simp
  then show ?thesis by (simp add: charCodeAt_u8_def fromCharCode_def)
qed

lemma b64_body_no_whitespace:
  "\<forall>n\<in>set ns. n < 64 \<Longrightarrow>
     filter (\<lambda>c. \<not> ascii_whitespace c) (map b64_char ns) = map b64_char ns"
  by (induction ns) (simp_all add: b64_char_not_ws)

lemma pad_not_whitespace: "\<not> ascii_whitespace (CHR ''='')"
  by (simp add: ascii_whitespace_def)

lemma b64_body_indices:
  "\<forall>n\<in>set ns. n < 64 \<Longrightarrow> map (\<lambda>c. the (b64_index c)) (map b64_char ns) = ns"
  by (induction ns) (simp_all add: b64_index_char)

lemma b64_body_valid:
  "\<forall>n\<in>set ns. n < 64 \<Longrightarrow> \<not> list_ex (\<lambda>c. b64_index c = None) (map b64_char ns)"
  by (induction ns) (simp_all add: b64_index_char)

lemma strip_padding_0:
  assumes "\<forall>n\<in>set ns. n < 64"
  shows "strip_padding (map b64_char ns) = map b64_char ns"
proof (cases "rev ns")
  case Nil
  then show ?thesis by (simp add: strip_padding_def)
next
  case (Cons n r)
  then have "n \<in> set ns" by (metis list.set_intros(1) set_rev)
  with assms have "b64_char n \<noteq> CHR ''=''" by (simp add: b64_char_not_eq)
  with Cons show ?thesis
    by (simp add: strip_padding_def rev_map split: list.splits)
qed

lemma strip_padding_1:
  assumes "\<forall>n\<in>set ns. n < 64" and "ns \<noteq> []" and "(length ns + 1) mod 4 = 0"
  shows "strip_padding (map b64_char ns @ ''='') = map b64_char ns"
proof -
  obtain n r where r: "rev ns = n # r" using assms(2) by (cases "rev ns") simp_all
  then have "n \<in> set ns" by (metis list.set_intros(1) set_rev)
  with assms have ne: "b64_char n \<noteq> CHR ''=''" by (simp add: b64_char_not_eq)
  have "rev (map b64_char ns) = b64_char n # map b64_char r"
    using r by (simp add: rev_map)
  then have "map b64_char ns = rev (b64_char n # map b64_char r)"
    by (metis rev_rev_ident)
  with ne assms(3) r show ?thesis
    by (simp add: strip_padding_def rev_map)
qed

lemma strip_padding_2:
  assumes "(length ns + 2) mod 4 = 0"
  shows "strip_padding (map b64_char ns @ ''=='') = map b64_char ns"
  using assms by (simp add: strip_padding_def)

lemma atob_btoa: "atob (btoa s) = Inr s"
proof -
  define bs where "bs = map (of_char :: char \<Rightarrow> nat) s"
  define ns where "ns = sextets bs"
  have bs: "\<forall>x\<in>set bs. x < 256" by (simp add: bs_def)
  then have ns: "\<forall>n\<in>set ns. n < 64" unfolding ns_def by (rule sextets_bound)
  have len: "length ns =
      4 * (length s div 3) + (if length s mod 3 = 0 then 0 else length s mod 3 + 1)"
    unfolding ns_def using length_sextets [of bs] by (simp add: bs_def)
  have m3: "length s mod 3 = 0 \<or> length s mod 3 = 1 \<or> length s mod 3 = 2" by arith
  have strip: "strip_padding (filter (\<lambda>c. \<not> ascii_whitespace c) (btoa s)) = map b64_char ns"
  proof -
    consider "length s mod 3 = 0" | "length s mod 3 = 1" | "length s mod 3 = 2"
      by arith
    then show ?thesis
    proof cases
      case 1
      then have "btoa s = map b64_char ns" by (simp add: btoa_def ns_def bs_def)
      then show ?thesis using ns by (simp add: b64_body_no_whitespace strip_padding_0)
    next
      case 2
      then have b: "btoa s = map b64_char ns @ ''==''"
        by (simp add: btoa_def ns_def bs_def numeral_2_eq_2)
      have "(length ns + 2) mod 4 = 0" using len 2 by simp
      then show ?thesis
        using ns b by (simp add: b64_body_no_whitespace strip_padding_2 pad_not_whitespace)
    next
      case 3
      then have b: "btoa s = map b64_char ns @ ''=''"
        by (simp add: btoa_def ns_def bs_def)
      have l: "(length ns + 1) mod 4 = 0" using len 3 by simp
      have "ns \<noteq> []" using len 3 by auto
      then show ?thesis
        using ns b l by (simp add: b64_body_no_whitespace strip_padding_1 pad_not_whitespace)
    qed
  qed
  have l1: "length (map b64_char ns) mod 4 \<noteq> 1"
    using len m3 by auto
  have i: "map (\<lambda>c. the (b64_index c)) (map b64_char ns) = ns"
    using ns by (rule b64_body_indices)
  have o: "octets ns = bs" unfolding ns_def using bs by (rule octets_sextets)
  have "map char_of (octets (map (\<lambda>c. the (b64_index c)) (map b64_char ns))) = map char_of bs"
    by (simp only: i o)
  also have "\<dots> = s" by (simp add: bs_def comp_def)
  finally have "map char_of (octets (map (\<lambda>c. the (b64_index c)) (map b64_char ns))) = s" .
  then show ?thesis
    unfolding atob_def strip Let_def using l1 b64_body_valid [OF ns] by simp
qed

lemma base64ToArrayBuffer_arrayBufferToBase64:
  "base64ToArrayBuffer (arrayBufferToBase64 b) = Inr b"
proof -
  define binary where "binary = map fromCharCode b"
  have enc: "arrayBufferToBase64 b = btoa binary"
    by (simp add: arrayBufferToBase64_def binary_loop_map binary_def)
  have dec: "atob (btoa binary) = Inr binary"
    by (rule atob_btoa)
  have "bytes_loop binary 0 (replicate (length binary) 0) = map charCodeAt_u8 binary"
    using bytes_loop_map [of "replicate (length binary) 0" binary 0] by simp
  also have "\<dots> = b"
    by (simp add: binary_def charCodeAt_fromCharCode comp_def)
  finally have loop: "bytes_loop binary 0 (replicate (length binary) 0) = b" .
  show ?thesis
    unfolding base64ToArrayBuffer_def enc dec by (simp only: sum.case loop)
qed

lemma templatesWithBinary_templatesForStorage:
  "templatesWithBinary (templatesForStorage ts) = Inr ts"
proof (induction ts)
  case Nil
  show ?case by (simp add: templatesForStorage_def)
next
  case (Cons t ts)
  obtain m b where t: "t = (m, b)" by (cases t)
  from Cons have "templatesWithBinary (map (\<lambda>(t, binary). (t, arrayBufferToBase64 binary)) ts) = Inr ts"
    by (simp add: templatesForStorage_def)
  then show ?case
    by (simp add: templatesForStorage_def t base64ToArrayBuffer_arrayBufferToBase64)
qed

text \<open>
  Claim C2. Base64 persistence round-trips: for every buffer \<open>b\<close>,
  \<^verbatim>\<open>base64ToArrayBuffer(arrayBufferToBase64(b))\<close> does not throw and yields a buffer
  with the same length and the same bytes as \<open>b\<close>; so the template list written to
  local storage comes back on mount with every binary restored bit for bit.
\<close>

theorem base64_roundtrip:
  "base64ToArrayBuffer (arrayBufferToBase64 b) = Inr b \<and>
   templatesWithBinary (templatesForStorage ts) = Inr ts"
  by (simp add: base64ToArrayBuffer_arrayBufferToBase64 templatesWithBinary_templatesForStorage)

theorem base64_roundtrip_witness:
  "base64ToArrayBuffer (arrayBufferToBase64 [77, 97, 110, 255, 0]) = Inr [77, 97, 110, 255, 0]"
  by (rule base64_roundtrip [of _ "[] :: (unit \<times> byte list) list", THEN conjunct1])

section \<open>Objects as association lists\<close>

lemma update_fresh: "k \<notin> fst ` set al \<Longrightarrow> AList.update k v al = al @ [(k, v)]"
  by (induction al) auto

lemma fold_assign_map:
  assumes "distinct (map fst (xs @ ys))"
  shows "fold (\<lambda>key processed.
                 case map_of (xs @ ys) key of
                   Some val \<Rightarrow> AList.update key (g val) processed
                 | None \<Rightarrow> processed)
              (map fst ys) (map (\<lambda>(k, v). (k, g v)) xs)
         = map (\<lambda>(k, v). (k, g v)) (xs @ ys)"
  using assms
proof (induction ys arbitrary: xs)
  case Nil
  then show ?case by simp
next
  case (Cons kv ys)
  obtain k v where kv: "kv = (k, v)" by (cases kv)
  have d: "distinct (map fst ((xs @ [kv]) @ ys))" using Cons.prems by simp
  have look: "map_of (xs @ kv # ys) k = Some v"
    using Cons.prems kv by (intro map_of_is_SomeI) simp_all
  have fresh: "k \<notin> fst ` set (map (\<lambda>(k, v). (k, g v)) xs)"
    using Cons.prems kv by (auto simp: image_iff)
  have step: "AList.update k (g v) (map (\<lambda>(k, v). (k, g v)) xs)
              = map (\<lambda>(k, v). (k, g v)) (xs @ [kv])"
    using update_fresh [OF fresh] kv by simp
  have "fold (\<lambda>key processed.
                 case map_of (xs @ kv # ys) key of
                   Some val \<Rightarrow> AList.update key (g val) processed
                 | None \<Rightarrow> processed)
              (map fst (kv # ys)) (map (\<lambda>(k, v). (k, g v)) xs)
        = fold (\<lambda>key processed.
                 case map_of ((xs @ [kv]) @ ys) key of
                   Some val \<Rightarrow> AList.update key (g val) processed
                 | None \<Rightarrow> processed)
              (map fst ys) (map (\<lambda>(k, v). (k, g v)) (xs @ [kv]))"
    using look step kv by simp
  also have "\<dots> = map (\<lambda>(k, v). (k, g v)) ((xs @ [kv]) @ ys)"
    using d by (rule Cons.IH)
  finally show ?case by simp
qed

lemma processRow_map:
  "distinct (keys row) \<Longrightarrow> processRow P row = map (\<lambda>(k, v). (k, coerceCell P v)) row"
  using fold_assign_map [of "[]" row "coerceCell P"]
  by (simp add: processRow_def keys_def)

lemma map_of_map_value:
  "map_of (map (\<lambda>(k, v). (k, g v)) row) k = map_option g (map_of row k)"
  by (induction row) auto

section \<open>Date coercion\<close>

text \<open>
  Claim C3. For every list of rows (objects, so with pairwise distinct keys),
  \<^verbatim>\<open>processExcelData\<close> returns a list of the same length; every row keeps its keys,
  in their order; a cell holding a number strictly between 1 and 73050 becomes the string
  \<^verbatim>\<open>excelDateToJSDate\<close> gives for that number; a cell holding any other number or
  a string keeps its value.
\<close>

theorem processExcelData_date_coercion:
  assumes "\<forall>row\<in>set jsonData. distinct (keys row)"
  shows "length (processExcelData P jsonData) = length jsonData \<and>
    (\<forall>i<length jsonData.
       keys (processExcelData P jsonData ! i) = keys (jsonData ! i) \<and>
       (\<forall>k n. map_of (jsonData ! i) k = Some (Num n) \<and> 1 < n \<and> n < 73050 \<longrightarrow>
          map_of (processExcelData P jsonData ! i) k = Some (Str (excelDateToJSDate P n))) \<and>
       (\<forall>k n. map_of (jsonData ! i) k = Some (Num n) \<and> \<not> (1 < n \<and> n < 73050) \<longrightarrow>
          map_of (processExcelData P jsonData ! i) k = Some (Num n)) \<and>
       (\<forall>k s. map_of (jsonData ! i) k = Some (Str s) \<longrightarrow>
          map_of (processExcelData P jsonData ! i) k = Some (Str s)))"
proof (intro conjI allI impI)
  show "length (processExcelData P jsonData) = length jsonData"
    by (simp add: processExcelData_def)
next
  fix i assume i: "i < length jsonData"
  then have "distinct (keys (jsonData ! i))" using assms by simp
  then have row: "processExcelData P jsonData ! i
      = map (\<lambda>(k, v). (k, coerceCell P v)) (jsonData ! i)"
    using i by (simp add: processExcelData_def processRow_map)
  show "keys (processExcelData P jsonData ! i) = keys (jsonData ! i)"
    unfolding row keys_def by (simp add: comp_def case_prod_unfold)
  { fix k n assume "map_of (jsonData ! i) k = Some (Num n) \<and> 1 < n \<and> n < 73050"
    then show "map_of (processExcelData P jsonData ! i) k = Some (Str (excelDateToJSDate P n))"
      unfolding row by (simp add: map_of_map_value coerceCell_def) }
  { fix k n assume "map_of (jsonData ! i) k = Some (Num n) \<and> \<not> (1 < n \<and> n < 73050)"
    then show "map_of (processExcelData P jsonData ! i) k = Some (Num n)"
      unfolding row by (auto simp add: map_of_map_value coerceCell_def) }
  { fix k s assume "map_of (jsonData ! i) k = Some (Str s)"
    then show "map_of (processExcelData P jsonData ! i) k = Some (Str s)"
      unfolding row by (simp add: map_of_map_value coerceCell_def) }
qed

theorem processExcelData_date_coercion_witness:
  "map_of (processExcelData examplePlatform
             [[(''name'', Str ''Ann''), (''issued'', Num 45000), (''score'', Num 1)]] ! 0) ''issued''
     = Some (Str (excelDateToJSDate examplePlatform 45000))
   \<and> map_of (processExcelData examplePlatform
             [[(''name'', Str ''Ann''), (''issued'', Num 45000), (''score'', Num 1)]] ! 0) ''score''
     = Some (Num 1)"
proof -
  let ?rows = "[[(''name'', Str ''Ann''), (''issued'', Num 45000), (''score'', Num 1)]]"
  have h: "\<forall>row\<in>set ?rows. distinct (keys row)" by (simp add: keys_def)
  have len: "0 < length ?rows" by simp
  have f1: "map_of (?rows ! 0) ''issued'' = Some (Num 45000) \<and> (1::real) < 45000 \<and> (45000::real) < 73050"
    by simp
  have f2: "map_of (?rows ! 0) ''score'' = Some (Num 1) \<and> \<not> ((1::real) < 1 \<and> (1::real) < 73050)"
    by simp
  note T = processExcelData_date_coercion [OF h, of examplePlatform, THEN conjunct2, rule_format, OF len]
  note T1 = T [THEN conjunct2, THEN conjunct1, rule_format, OF f1]
  note T2 = T [THEN conjunct2, THEN conjunct2, THEN conjunct1, rule_format, OF f2]
  show ?thesis by (rule conjI [OF T1 T2])
qed

section \<open>Render data of the DOCX export\<close>












section \<open>Absent fields and other failures\<close>













section \<open>Range export\<close>

lemma range_loop_timers:
  "range_loop i st =
     st\<lparr>timers := timers st @
          map (\<lambda>j. \<lparr>delay = (j - rangeStart st + 1) * 500, index = j\<rparr>) [i..rangeEnd st - 1]\<rparr>"
proof (induction i st rule: range_loop.induct)
  case (1 i st)
  show ?case
  proof (cases "i < rangeEnd st")
    case True
    then have u: "[i..rangeEnd st - 1] = i # [i + 1..rangeEnd st - 1]"
      by (simp add: upto_rec1)
    have "range_loop i st
        = range_loop (i + 1) (setTimeout i ((i - rangeStart st + 1) * 500) st)"
      using True by (simp add: range_loop.simps [of i st])
    also have "\<dots> = (setTimeout i ((i - rangeStart st + 1) * 500) st)
          \<lparr>timers := timers (setTimeout i ((i - rangeStart st + 1) * 500) st) @
             map (\<lambda>j. \<lparr>delay = (j - rangeStart (setTimeout i ((i - rangeStart st + 1) * 500) st) + 1) * 500,
                       index = j\<rparr>)
               [i + 1..rangeEnd (setTimeout i ((i - rangeStart st + 1) * 500) st) - 1]\<rparr>"
      using True by (rule "1.IH")
    also have "\<dots> = st\<lparr>timers := timers st @
          map (\<lambda>j. \<lparr>delay = (j - rangeStart st + 1) * 500, index = j\<rparr>) [i..rangeEnd st - 1]\<rparr>"
      by (simp add: u setTimeout_def)
    finally show ?thesis .
  next
    case False
    then show ?thesis by (simp add: range_loop.simps [of i st])
  qed
qed

lemma generateDocx_same_render:
  assumes "docxBinary st2 = docxBinary st" "placeholders st2 = placeholders st"
  shows "generateDocx P st2 rcd = generateDocx P st rcd"
  using assms by (simp add: generateDocx_def split: option.splits)

lemma downloadCallback_same_render:
  assumes "data st2 = data st" "docxBinary st2 = docxBinary st" "placeholders st2 = placeholders st"
  shows "downloadCallback P st2 i = downloadCallback P st i"
  using assms(1) by (simp add: downloadCallback_def generateDocx_same_render [OF assms(2,3)])

lemma sorted_range_delays: "sorted (map (\<lambda>i. (i - rs + 1) * 500) [a..b])"
  by (rule sorted_map_mono) (auto simp: mono_on_def)

lemma sorted_delays: "sorted (map (\<lambda>idx. int idx * 500) [m..<n])"
  by (rule sorted_map_mono) (auto simp: mono_on_def)

text \<open>
  Claim C5. \<^verbatim>\<open>handleDownloadRange\<close> alerts the invalid range, sets no timer and
  leaves the dialog as it is exactly when \<^verbatim>\<open>rangeStart < 1\<close> or
  \<^verbatim>\<open>rangeEnd > data.length\<close> or \<^verbatim>\<open>rangeStart > rangeEnd\<close>. Otherwise it raises no
  alert, sets one timer for each index \<open>i\<close> from \<open>rangeStart - 1\<close> to
  \<open>rangeEnd - 1\<close> (the records whose 1-based index lies between \<open>rangeStart\<close> and
  \<open>rangeEnd\<close>, each inside \<^verbatim>\<open>data\<close>), that is \<open>rangeEnd - rangeStart + 1\<close>
  timers, and closes the dialog; when no other timer is pending, the timers fire in
  that order and each runs the generation and download of its record once: the
  document \<^verbatim>\<open>generateDocx\<close> makes of the record is downloaded under the record's
  certificate name, and an exception is logged instead. In the invalid case nothing
  fires, so nothing is downloaded.
\<close>

theorem handleDownloadRange_validation:
  "(rangeStart st < 1 \<or> rangeEnd st > int (length (data st)) \<or> rangeStart st > rangeEnd st \<longrightarrow>
      handleDownloadRange st
        = st\<lparr>alerts := alerts st @ [''Invalid range. Please check your input.'']\<rparr> \<and>
      timers (handleDownloadRange st) = timers st \<and>
      (timers st = [] \<longrightarrow> fireTimers P (handleDownloadRange st) = [])) \<and>
   (\<not> (rangeStart st < 1 \<or> rangeEnd st > int (length (data st)) \<or> rangeStart st > rangeEnd st) \<longrightarrow>
      handleDownloadRange st
        = st\<lparr>timers := timers st @
               map (\<lambda>i. \<lparr>delay = (i - rangeStart st + 1) * 500, index = i\<rparr>)
                 [rangeStart st - 1..rangeEnd st - 1],
             showRangeDialog := False\<rparr> \<and>
      length (timers (handleDownloadRange st))
        = length (timers st) + nat (rangeEnd st - rangeStart st + 1) \<and>
      map index (drop (length (timers st)) (timers (handleDownloadRange st)))
        = [rangeStart st - 1..rangeEnd st - 1] \<and>
      (\<forall>i\<in>set [rangeStart st - 1..rangeEnd st - 1]. 0 \<le> i \<and> i < int (length (data st))) \<and>
      alerts (handleDownloadRange st) = alerts st \<and>
      \<not> showRangeDialog (handleDownloadRange st) \<and>
      (timers st = [] \<longrightarrow>
         fireTimers P (handleDownloadRange st)
           = map (downloadCallback P st) [rangeStart st - 1..rangeEnd st - 1]) \<and>
      (timers st = [] \<longrightarrow>
         fireTimers P (handleDownloadRange st)
           = map (\<lambda>i. case generateDocx P st (data st ! nat i) of
                        Inl e \<Rightarrow>
                          ConsoleError (''Error generating certificate '' @ decimal (nat i + 1) @ '':'')
                      | Inr blob \<Rightarrow>
                          Download (certificateName P (data st ! nat i) (nat i) @ ''.docx'') blob)
               [rangeStart st - 1..rangeEnd st - 1]))"
proof (intro conjI impI)
  assume "rangeStart st < 1 \<or> rangeEnd st > int (length (data st)) \<or> rangeStart st > rangeEnd st"
  then show inv: "handleDownloadRange st
      = st\<lparr>alerts := alerts st @ [''Invalid range. Please check your input.'']\<rparr>"
    by (simp add: handleDownloadRange_def)
  show "timers (handleDownloadRange st) = timers st"
    unfolding inv by simp
  show "fireTimers P (handleDownloadRange st) = []" if "timers st = []"
    unfolding inv fireTimers_def using that by simp
next
  assume v: "\<not> (rangeStart st < 1 \<or> rangeEnd st > int (length (data st))
      \<or> rangeStart st > rangeEnd st)"
  then show eq: "handleDownloadRange st
      = st\<lparr>timers := timers st @
             map (\<lambda>i. \<lparr>delay = (i - rangeStart st + 1) * 500, index = i\<rparr>)
               [rangeStart st - 1..rangeEnd st - 1],
           showRangeDialog := False\<rparr>"
    by (simp add: handleDownloadRange_def range_loop_timers)
  show "length (timers (handleDownloadRange st))
      = length (timers st) + nat (rangeEnd st - rangeStart st + 1)"
    unfolding eq by simp
  show "map index (drop (length (timers st)) (timers (handleDownloadRange st)))
      = [rangeStart st - 1..rangeEnd st - 1]"
    unfolding eq by (simp add: comp_def)
  show "\<forall>i\<in>set [rangeStart st - 1..rangeEnd st - 1]. 0 \<le> i \<and> i < int (length (data st))"
    using v by auto
  show "alerts (handleDownloadRange st) = alerts st"
    unfolding eq by simp
  show "\<not> showRangeDialog (handleDownloadRange st)"
    unfolding eq by simp
  show fired: "fireTimers P (handleDownloadRange st)
      = map (downloadCallback P st) [rangeStart st - 1..rangeEnd st - 1]"
    if "timers st = []"
  proof -
    let ?ts = "map (\<lambda>i. \<lparr>delay = (i - rangeStart st + 1) * 500, index = i\<rparr>)
        [rangeStart st - 1..rangeEnd st - 1]"
    have "sorted (map delay ?ts)"
      using sorted_range_delays [of "rangeStart st" "rangeStart st - 1" "rangeEnd st - 1"]
      by (simp add: comp_def)
    then have srt: "sort_key delay ?ts = ?ts" by (rule sort_key_id_if_sorted)
    define st2 where "st2 = handleDownloadRange st"
    have tm: "timers st2 = ?ts"
      unfolding st2_def eq using that by simp
    have "data st2 = data st" "docxBinary st2 = docxBinary st" "placeholders st2 = placeholders st"
      unfolding st2_def eq by simp_all
    then have cb: "downloadCallback P st2 i = downloadCallback P st i" for i
      by (rule downloadCallback_same_render)
    have "fireTimers P st2 = map (\<lambda>t. downloadCallback P st2 (index t)) (sort_key delay ?ts)"
      by (simp only: fireTimers_def tm)
    also have "\<dots> = map (\<lambda>t. downloadCallback P st2 (index t)) ?ts"
      by (simp only: srt)
    also have "\<dots> = map (downloadCallback P st) [rangeStart st - 1..rangeEnd st - 1]"
      by (simp add: cb comp_def)
    finally show ?thesis by (simp only: st2_def)
  qed
  show "fireTimers P (handleDownloadRange st)
      = map (\<lambda>i. case generateDocx P st (data st ! nat i) of
                   Inl e \<Rightarrow>
                     ConsoleError (''Error generating certificate '' @ decimal (nat i + 1) @ '':'')
                 | Inr blob \<Rightarrow>
                     Download (certificateName P (data st ! nat i) (nat i) @ ''.docx'') blob)
          [rangeStart st - 1..rangeEnd st - 1]"
    if "timers st = []"
  proof -
    have "downloadCallback P st i
        = (case generateDocx P st (data st ! nat i) of
             Inl e \<Rightarrow>
               ConsoleError (''Error generating certificate '' @ decimal (nat i + 1) @ '':'')
           | Inr blob \<Rightarrow>
               Download (certificateName P (data st ! nat i) (nat i) @ ''.docx'') blob)"
      if "i \<in> set [rangeStart st - 1..rangeEnd st - 1]" for i
    proof -
      from that v have "0 \<le> i \<and> i < int (length (data st))" by auto
      then show ?thesis by (simp add: downloadCallback_def Let_def)
    qed
    then show ?thesis
      unfolding fired [OF that] by (intro map_cong refl)
  qed
qed

theorem handleDownloadRange_validation_witness:
  "map index (timers (handleDownloadRange ((exampleState [[], [], [], []])\<lparr>rangeStart := 2, rangeEnd := 3\<rparr>)))
     = [1, 2] \<and>
   timers (handleDownloadRange ((exampleState [[], [], [], []])\<lparr>rangeStart := 3, rangeEnd := 2\<rparr>)) = [] \<and>
   fireTimers examplePlatform
     (handleDownloadRange ((exampleState [[], [], [], []])\<lparr>rangeStart := 2, rangeEnd := 3\<rparr>))
     = [Download ''certificate_2.docx'' [80, 75], Download ''certificate_3.docx'' [80, 75]] \<and>
   fireTimers examplePlatform
     (handleDownloadRange ((exampleState [[], [], [], []])\<lparr>rangeStart := 3, rangeEnd := 2\<rparr>)) = []"
proof -
  let ?ok = "(exampleState [[], [], [], []])\<lparr>rangeStart := 2, rangeEnd := 3\<rparr>"
  let ?bad = "(exampleState [[], [], [], []])\<lparr>rangeStart := 3, rangeEnd := 2\<rparr>"
  have a: "\<not> (rangeStart ?ok < 1 \<or> rangeEnd ?ok > int (length (data ?ok)) \<or> rangeStart ?ok > rangeEnd ?ok)"
    by (simp add: exampleState_def)
  have b: "rangeStart ?bad < 1 \<or> rangeEnd ?bad > int (length (data ?bad)) \<or> rangeStart ?bad > rangeEnd ?bad"
    by (simp add: exampleState_def)
  have u: "[(1::int)..2] = [1, 2]" by (simp add: upto_rec1)
  from handleDownloadRange_validation [of ?ok, THEN conjunct2, rule_format, OF a]
  have "map index (drop (length (timers ?ok)) (timers (handleDownloadRange ?ok)))
      = [rangeStart ?ok - 1..rangeEnd ?ok - 1]"
    by blast
  then have 1: "map index (timers (handleDownloadRange ?ok)) = [1, 2]"
    by (simp add: exampleState_def u)
  have tb: "timers ?bad = []" and tk: "timers ?ok = []"
    by (simp_all add: exampleState_def)
  note B = handleDownloadRange_validation [of ?bad examplePlatform, THEN conjunct1, rule_format, OF b]
  from B have 2: "timers (handleDownloadRange ?bad) = []"
    by (simp add: exampleState_def)
  have 4: "fireTimers examplePlatform (handleDownloadRange ?bad) = []"
    by (rule B [THEN conjunct2, THEN conjunct2, rule_format, OF tb])
  have cb: "downloadCallback examplePlatform (exampleState [[], [], [], []]) 1
        = Download ''certificate_2.docx'' [80, 75]"
    "downloadCallback examplePlatform (exampleState [[], [], [], []]) 2
        = Download ''certificate_3.docx'' [80, 75]"
    by code_simp+
  have same: "downloadCallback examplePlatform ?ok i
      = downloadCallback examplePlatform (exampleState [[], [], [], []]) i" for i
    by (rule downloadCallback_same_render) simp_all
  from handleDownloadRange_validation [of ?ok examplePlatform, THEN conjunct2, rule_format, OF a]
  have "timers ?ok = [] \<longrightarrow> fireTimers examplePlatform (handleDownloadRange ?ok)
      = map (downloadCallback examplePlatform ?ok) [rangeStart ?ok - 1..rangeEnd ?ok - 1]"
    by blast
  with tk have 3: "fireTimers examplePlatform (handleDownloadRange ?ok)
      = [Download ''certificate_2.docx'' [80, 75], Download ''certificate_3.docx'' [80, 75]]"
    by (simp add: u same cb)
  from 1 2 3 4 show ?thesis by simp
qed

section \<open>Download of all records\<close>

lemma fold_setTimeout:
  "fold (\<lambda>idx s. setTimeout (int idx) (int idx * 500) s) xs st
     = st\<lparr>timers := timers st @ map (\<lambda>idx. \<lparr>delay = int idx * 500, index = int idx\<rparr>) xs\<rparr>"
  by (induction xs arbitrary: st) (simp_all add: setTimeout_def)

lemma handleDownloadAll_timers:
  "handleDownloadAll st
     = st\<lparr>timers := timers st @
            map (\<lambda>idx. \<lparr>delay = int idx * 500, index = int idx\<rparr>) [0..<length (data st)]\<rparr>"
  by (simp add: handleDownloadAll_def fold_setTimeout)

lemma fire_handleDownloadAll:
  assumes "timers st = []"
  shows "fireTimers P (handleDownloadAll st)
     = map (\<lambda>idx. downloadCallback P st (int idx)) [0..<length (data st)]"
proof -
  let ?ts = "map (\<lambda>idx. \<lparr>delay = int idx * 500, index = int idx\<rparr>) [0..<length (data st)]"
  have "sorted (map delay ?ts)"
    using sorted_delays [of 0 "length (data st)"] by (simp add: comp_def)
  then have srt: "sort_key delay ?ts = ?ts" by (rule sort_key_id_if_sorted)
  define st2 where "st2 = handleDownloadAll st"
  have tm: "timers st2 = ?ts"
    unfolding st2_def handleDownloadAll_timers using assms by simp
  have "data st2 = data st" "docxBinary st2 = docxBinary st" "placeholders st2 = placeholders st"
    unfolding st2_def handleDownloadAll_timers by simp_all
  then have cb: "downloadCallback P st2 i = downloadCallback P st i" for i
    by (rule downloadCallback_same_render)
  have "fireTimers P st2 = map (\<lambda>t. downloadCallback P st2 (index t)) (sort_key delay ?ts)"
    by (simp only: fireTimers_def tm)
  also have "\<dots> = map (\<lambda>t. downloadCallback P st2 (index t)) ?ts"
    by (simp only: srt)
  also have "\<dots> = map (\<lambda>idx. downloadCallback P st (int idx)) [0..<length (data st)]"
    by (simp add: cb comp_def)
  finally show ?thesis by (simp only: st2_def)
qed

text \<open>
  Claim C6, as stated, fails on the naming: the \<^verbatim>\<open>name\<close> field is used when it is
  truthy, not when it is present. A record whose \<^verbatim>\<open>name\<close> is the number 0 has the
  field, and its document is named \<^verbatim>\<open>certificate_1\<close>.
\<close>

theorem handleDownloadAll_name_counterexample:
  "map_of [(''name'', Num 0)] ''name'' = Some (Num 0) \<and>
   fireTimers examplePlatform (handleDownloadAll (exampleState [[(''name'', Num 0)]]))
     = [Download ''certificate_1.docx'' [80, 75]]"
proof -
  have t: "timers (exampleState [[(''name'', Num 0)]]) = []"
    by (simp add: exampleState_def)
  have "downloadCallback examplePlatform (exampleState [[(''name'', Num 0)]]) 0
      = Download ''certificate_1.docx'' [80, 75]"
    by code_simp
  then show ?thesis
    by (simp add: fire_handleDownloadAll [OF t]) (simp add: exampleState_def)
qed

text \<open>
  Claim C6, amended. With no timer pending, \<^verbatim>\<open>handleDownloadAll\<close> makes exactly one
  generation attempt per record, in the order of the records. An attempt that succeeds
  is downloaded as \<^verbatim>\<open><name>.docx\<close>, where the name is the record's \<^verbatim>\<open>name\<close> field
  if that is truthy (present, not the empty string, not 0), else its \<^verbatim>\<open>Name\<close>
  field if that is truthy, else \<^verbatim>\<open>certificate_<index + 1>\<close>. An attempt that throws
  is only logged, and the attempts for the other records are made all the same.
\<close>

theorem handleDownloadAll_one_document_per_record:
  assumes "timers st = []"
  shows "length (fireTimers P (handleDownloadAll st)) = length (data st) \<and>
    (\<forall>idx<length (data st).
       (\<forall>blob. generateDocx P st (data st ! idx) = Inr blob \<longrightarrow>
          fireTimers P (handleDownloadAll st) ! idx
            = Download (certificateName P (data st ! idx) idx @ ''.docx'') blob) \<and>
       (\<forall>e. generateDocx P st (data st ! idx) = Inl e \<longrightarrow>
          (\<exists>msg. fireTimers P (handleDownloadAll st) ! idx = ConsoleError msg)) \<and>
       (\<forall>v. map_of (data st ! idx) ''name'' = Some v \<and> truthy (Some v) \<longrightarrow>
          certificateName P (data st ! idx) idx = toString P v) \<and>
       (\<forall>v. \<not> truthy (map_of (data st ! idx) ''name'') \<and>
            map_of (data st ! idx) ''Name'' = Some v \<and> truthy (Some v) \<longrightarrow>
          certificateName P (data st ! idx) idx = toString P v) \<and>
       (\<not> truthy (map_of (data st ! idx) ''name'') \<and>
        \<not> truthy (map_of (data st ! idx) ''Name'') \<longrightarrow>
          certificateName P (data st ! idx) idx = ''certificate_'' @ decimal (idx + 1)))"
proof (intro conjI allI impI)
  show "length (fireTimers P (handleDownloadAll st)) = length (data st)"
    by (simp add: fire_handleDownloadAll [OF assms])
next
  fix idx blob
  assume "idx < length (data st)" "generateDocx P st (data st ! idx) = Inr blob"
  then show "fireTimers P (handleDownloadAll st) ! idx
      = Download (certificateName P (data st ! idx) idx @ ''.docx'') blob"
    by (simp add: fire_handleDownloadAll [OF assms] downloadCallback_def)
next
  fix idx e
  assume "idx < length (data st)" "generateDocx P st (data st ! idx) = Inl e"
  then show "\<exists>msg. fireTimers P (handleDownloadAll st) ! idx = ConsoleError msg"
    by (simp add: fire_handleDownloadAll [OF assms] downloadCallback_def)
next
  fix idx v
  assume "map_of (data st ! idx) ''name'' = Some v \<and> truthy (Some v)"
  then show "certificateName P (data st ! idx) idx = toString P v"
    by (simp add: certificateName_def)
next
  fix idx v
  assume "\<not> truthy (map_of (data st ! idx) ''name'') \<and>
      map_of (data st ! idx) ''Name'' = Some v \<and> truthy (Some v)"
  then show "certificateName P (data st ! idx) idx = toString P v"
    by (simp add: certificateName_def)
next
  fix idx
  assume "\<not> truthy (map_of (data st ! idx) ''name'') \<and>
      \<not> truthy (map_of (data st ! idx) ''Name'')"
  then show "certificateName P (data st ! idx) idx = ''certificate_'' @ decimal (idx + 1)"
    by (simp add: certificateName_def)
qed

theorem handleDownloadAll_one_document_per_record_witness:
  "fireTimers examplePlatform
     (handleDownloadAll (exampleState [[(''name'', Str ''Ann'')], [(''Name'', Str ''Bo'')]])) ! 0
     = Download (certificateName examplePlatform [(''name'', Str ''Ann'')] 0 @ ''.docx'') [80, 75] \<and>
   certificateName examplePlatform [(''name'', Str ''Ann'')] 0 = toString examplePlatform (Str ''Ann'')"
proof -
  let ?st = "exampleState [[(''name'', Str ''Ann'')], [(''Name'', Str ''Bo'')]]"
  have t: "timers ?st = []"
    by (simp add: exampleState_def)
  have i: "0 < length (data ?st)"
    by (simp add: exampleState_def)
  have d: "data ?st ! 0 = [(''name'', Str ''Ann'')]"
    by (simp add: exampleState_def)
  have g: "generateDocx examplePlatform ?st (data ?st ! 0) = Inr [80, 75]"
    by (simp add: generateDocx_def exampleState_def examplePlatform_def)
  have n: "map_of (data ?st ! 0) ''name'' = Some (Str ''Ann'') \<and> truthy (Some (Str ''Ann''))"
    by (simp add: d truthy_def)
  note T = handleDownloadAll_one_document_per_record
    [OF t, of examplePlatform, THEN conjunct2, rule_format, OF i]
  note T1 = T [THEN conjunct1, rule_format, OF g]
  note T2 = T [THEN conjunct2, THEN conjunct2, THEN conjunct1, rule_format, OF n]
  from T1 T2 show ?thesis unfolding d by (rule conjI)
qed

section \<open>Spreadsheet upload\<close>

text \<open>
  Claim C7. When parsing the uploaded file throws, \<^verbatim>\<open>handleExcelUpload\<close> alerts the
  user (and logs the error) and changes nothing else: \<^verbatim>\<open>data\<close>,
  \<^verbatim>\<open>excelColumns\<close>, \<^verbatim>\<open>currentIndex\<close>, \<^verbatim>\<open>rangeEnd\<close> and \<^verbatim>\<open>uploadStatus\<close> keep
  their values. Whatever the outcome of the parse, one of these fields changes only when
  the parse succeeded with at least one row.
\<close>

theorem handleExcelUpload_parse_failure_atomic:
  "handleExcelUpload_onload P (Inl e) st
     = st\<lparr>consoleErrors := consoleErrors st @ [''Error reading Excel:''],
          alerts := alerts st @ [''Error reading Excel file. Please try again.'']\<rparr> \<and>
   data (handleExcelUpload_onload P (Inl e) st) = data st \<and>
   excelColumns (handleExcelUpload_onload P (Inl e) st) = excelColumns st \<and>
   currentIndex (handleExcelUpload_onload P (Inl e) st) = currentIndex st \<and>
   rangeEnd (handleExcelUpload_onload P (Inl e) st) = rangeEnd st \<and>
   uploadStatus (handleExcelUpload_onload P (Inl e) st) = uploadStatus st \<and>
   (data (handleExcelUpload_onload P parsed st) \<noteq> data st \<or>
    excelColumns (handleExcelUpload_onload P parsed st) \<noteq> excelColumns st \<or>
    currentIndex (handleExcelUpload_onload P parsed st) \<noteq> currentIndex st \<or>
    rangeEnd (handleExcelUpload_onload P parsed st) \<noteq> rangeEnd st \<or>
    uploadStatus (handleExcelUpload_onload P parsed st) \<noteq> uploadStatus st
    \<longrightarrow> (\<exists>rows. parsed = Inr rows \<and> rows \<noteq> []))"
proof -
  have "\<exists>rows. parsed = Inr rows \<and> rows \<noteq> []"
    if "data (handleExcelUpload_onload P parsed st) \<noteq> data st \<or>
        excelColumns (handleExcelUpload_onload P parsed st) \<noteq> excelColumns st \<or>
        currentIndex (handleExcelUpload_onload P parsed st) \<noteq> currentIndex st \<or>
        rangeEnd (handleExcelUpload_onload P parsed st) \<noteq> rangeEnd st \<or>
        uploadStatus (handleExcelUpload_onload P parsed st) \<noteq> uploadStatus st"
  proof (cases parsed)
    case (Inl err)
    with that show ?thesis by (simp add: handleExcelUpload_onload_def)
  next
    case (Inr rows)
    with that have "rows \<noteq> []"
      by (auto simp add: handleExcelUpload_onload_def)
    with Inr show ?thesis by simp
  qed
  then show ?thesis by (simp add: handleExcelUpload_onload_def)
qed

theorem handleExcelUpload_parse_failure_atomic_witness:
  "alerts (handleExcelUpload_onload examplePlatform (Inl (LibraryError ''bad zip'')) (exampleState []))
     = [''Error reading Excel file. Please try again.''] \<and>
   data (handleExcelUpload_onload examplePlatform (Inl (LibraryError ''bad zip'')) (exampleState []))
     = data (exampleState []) \<and>
   (\<exists>rows. (Inr [[(''name'', Str ''Ann'')]] :: jsError + certificateData list) = Inr rows \<and> rows \<noteq> [])"
proof -
  let ?st = "exampleState []"
  let ?parsed = "Inr [[(''name'', Str ''Ann'')]] :: jsError + certificateData list"
  note T = handleExcelUpload_parse_failure_atomic
    [of examplePlatform "LibraryError ''bad zip''" ?st ?parsed]
  have changed:
    "data (handleExcelUpload_onload examplePlatform ?parsed ?st) \<noteq> data ?st \<or>
     excelColumns (handleExcelUpload_onload examplePlatform ?parsed ?st) \<noteq> excelColumns ?st \<or>
     currentIndex (handleExcelUpload_onload examplePlatform ?parsed ?st) \<noteq> currentIndex ?st \<or>
     rangeEnd (handleExcelUpload_onload examplePlatform ?parsed ?st) \<noteq> rangeEnd ?st \<or>
     uploadStatus (handleExcelUpload_onload examplePlatform ?parsed ?st) \<noteq> uploadStatus ?st"
    by (simp add: handleExcelUpload_onload_def exampleState_def processExcelData_def)
  have 1: "alerts (handleExcelUpload_onload examplePlatform (Inl (LibraryError ''bad zip'')) ?st)
      = [''Error reading Excel file. Please try again.'']"
    using T [THEN conjunct1] by (simp add: exampleState_def)
  have 2: "data (handleExcelUpload_onload examplePlatform (Inl (LibraryError ''bad zip'')) ?st)
      = data ?st"
    by (rule T [THEN conjunct2, THEN conjunct1])
  have 3: "\<exists>rows. ?parsed = Inr rows \<and> rows \<noteq> []"
    by (rule T [THEN conjunct2, THEN conjunct2, THEN conjunct2, THEN conjunct2, THEN conjunct2,
          THEN conjunct2, rule_format, OF changed])
  from 1 2 3 show ?thesis by simp
qed

text \<open>
  Claim C10. A file that parses to zero rows is ignored without a word: the handler
  returns the state it was given, so no alert is raised and \<^verbatim>\<open>data\<close>,
  \<^verbatim>\<open>excelColumns\<close>, \<^verbatim>\<open>currentIndex\<close> and \<^verbatim>\<open>uploadStatus.excel\<close> are unchanged;
  an upload not yet marked complete stays so.
\<close>

theorem handleExcelUpload_empty_sheet_ignored:
  "handleExcelUpload_onload P (Inr []) st = st \<and>
   alerts (handleExcelUpload_onload P (Inr []) st) = alerts st \<and>
   data (handleExcelUpload_onload P (Inr []) st) = data st \<and>
   excelColumns (handleExcelUpload_onload P (Inr []) st) = excelColumns st \<and>
   currentIndex (handleExcelUpload_onload P (Inr []) st) = currentIndex st \<and>
   excel (uploadStatus (handleExcelUpload_onload P (Inr []) st)) = excel (uploadStatus st)"
  by (simp add: handleExcelUpload_onload_def)

theorem handleExcelUpload_empty_sheet_ignored_witness:
  "handleExcelUpload_onload examplePlatform (Inr [])
     ((exampleState [])\<lparr>uploadStatus := \<lparr>docx = True, excel = False\<rparr>\<rparr>)
     = (exampleState [])\<lparr>uploadStatus := \<lparr>docx = True, excel = False\<rparr>\<rparr>"
  using handleExcelUpload_empty_sheet_ignored
    [of examplePlatform "(exampleState [])\<lparr>uploadStatus := \<lparr>docx = True, excel = False\<rparr>\<rparr>"]
  by simp

section \<open>The extraction scan\<close>

lemma matchDelimited_word:
  "matchDelimited opn cls s = Some (w, n) \<Longrightarrow> w \<noteq> [] \<and> list_all wordChar w"
  by (auto simp: matchDelimited_def Let_def list_all_iff split: if_splits dest: set_takeWhileD)

lemma matchPlaceholder_word:
  assumes "matchPlaceholder s = Some (g1, g2, g3, n)"
    and "orGroup (orGroup g1 g2) g3 = Some p"
  shows "p \<noteq> [] \<and> list_all wordChar p"
  using assms
  by (auto simp: matchPlaceholder_def orGroup_def
      split: option.splits if_splits dest: matchDelimited_word)

lemma matchDelimited_length:
  "matchDelimited opn cls s = Some (w, n) \<Longrightarrow> opn \<noteq> [] \<Longrightarrow> cls \<noteq> [] \<Longrightarrow> 3 \<le> n"
  by (cases opn; cases cls; cases w)
     (auto simp: matchDelimited_def Let_def split: if_splits)

text \<open>
  A match is at least three characters long, so \<^verbatim>\<open>lastIndex\<close> moves forward in every
  round of the loop and the loop ends.
\<close>

lemma matchPlaceholder_length:
  "matchPlaceholder s = Some (g1, g2, g3, n) \<Longrightarrow> 3 \<le> n"
  by (auto simp: matchPlaceholder_def split: option.splits dest!: matchDelimited_length)

lemma setAdd_set: "set (setAdd p found) = insert p (set found)"
  by (auto simp: setAdd_def)

lemma setAdd_distinct: "distinct found \<Longrightarrow> distinct (setAdd p found)"
  by (simp add: setAdd_def)

lemma scanPlaceholders_invariant:
  assumes add: "\<And>p found. p \<noteq> [] \<Longrightarrow> list_all wordChar p \<Longrightarrow> Q found \<Longrightarrow> Q (setAdd p found)"
  shows "Q found \<Longrightarrow> Q (scanPlaceholders s found)"
proof (induction "length s" arbitrary: s found rule: less_induct)
  case less
  show ?case
  proof (cases s)
    case Nil
    with less.prems show ?thesis by simp
  next
    case (Cons c cs)
    show ?thesis
    proof (cases "matchPlaceholder (c # cs)")
      case None
      have "Q (scanPlaceholders cs found)"
        using less.prems Cons by (intro less.hyps) simp_all
      with None Cons show ?thesis by simp
    next
      case (Some m)
      obtain g1 g2 g3 n where m: "m = (g1, g2, g3, n)" by (cases m)
      define found2 where "found2 =
        (case orGroup (orGroup g1 g2) g3 of
           Some p \<Rightarrow> if p \<noteq> [] then setAdd p found else found | None \<Rightarrow> found)"
      have "Q found2"
        unfolding found2_def
        using less.prems matchPlaceholder_word [of "c # cs" g1 g2 g3 n] Some m
        by (auto intro: add split: option.splits)
      then have "Q (scanPlaceholders (drop (n - 1) cs) found2)"
        using Cons by (intro less.hyps) simp_all
      then show ?thesis using Some m Cons by (simp add: Let_def found2_def)
    qed
  qed
qed

lemma scanPlaceholders_word:
  "\<forall>p\<in>set found. p \<noteq> [] \<and> list_all wordChar p \<Longrightarrow>
     \<forall>p\<in>set (scanPlaceholders s found). p \<noteq> [] \<and> list_all wordChar p"
  by (rule scanPlaceholders_invariant) (simp_all add: setAdd_set)

lemma scanPlaceholders_distinct:
  "distinct found \<Longrightarrow> distinct (scanPlaceholders s found)"
  by (rule scanPlaceholders_invariant) (simp_all add: setAdd_distinct)

lemma wordChar_literal: "wordChar c \<Longrightarrow> \<not> regexSyntaxChar c"
  by (auto simp: wordChar_def regexSyntaxChar_def)

lemma extractPlaceholders_names:
  "p \<in> set (extractPlaceholders text) \<Longrightarrow> p \<noteq> [] \<and> regexLiteral p"
proof -
  assume "p \<in> set (extractPlaceholders text)"
  then have "p \<noteq> [] \<and> list_all wordChar p"
    using scanPlaceholders_word [of "[]" "text"] by (simp add: extractPlaceholders_def)
  then show ?thesis
    by (auto simp: regexLiteral_def list_all_iff dest: wordChar_literal)
qed

lemma extractPlaceholders_distinct: "distinct (extractPlaceholders text)"
  by (simp add: extractPlaceholders_def scanPlaceholders_distinct)

section \<open>Determinism of merge and extraction\<close>

lemma isPrefix_length: "isPrefix p t \<Longrightarrow> length p \<le> length t"
proof -
  assume "isPrefix p t"
  then have "length (take (length p) t) = length p" by (simp add: isPrefix_def)
  then show ?thesis by (simp add: min_def split: if_splits)
qed

lemma matchDelimited_fits:
  assumes "matchDelimited opn cls s = Some (w, n)" and "cls \<noteq> []"
  shows "n \<le> length s"
proof -
  from assms(1) have n: "n = length opn + length w + length cls"
    and p: "isPrefix cls (drop (length opn + length w) s)"
    by (auto simp: matchDelimited_def Let_def split: if_splits)
  from p have "length cls \<le> length s - (length opn + length w)"
    using isPrefix_length [of cls "drop (length opn + length w) s"] by simp
  moreover have "0 < length cls" using assms(2) by simp
  ultimately show ?thesis using n by linarith
qed

lemma matchPlaceholder_fits:
  "matchPlaceholder s = Some (g1, g2, g3, n) \<Longrightarrow> n \<le> length s"
  by (auto simp: matchPlaceholder_def split: option.splits dest!: matchDelimited_fits)

lemma matchPlaceholder_Nil: "matchPlaceholder [] = None"
  by (simp add: matchPlaceholder_def matchDelimited_def isPrefix_def)

lemma scanPlaceholders_match:
  assumes "matchPlaceholder u = Some (g1, g2, g3, n)"
  shows "scanPlaceholders u found
     = scanPlaceholders (drop n u)
         (case orGroup (orGroup g1 g2) g3 of
            Some p \<Rightarrow> if p \<noteq> [] then setAdd p found else found
          | None \<Rightarrow> found)"
proof (cases u)
  case Nil
  with assms show ?thesis by (simp add: matchPlaceholder_Nil)
next
  case (Cons c cs)
  have "3 \<le> n" using assms by (rule matchPlaceholder_length)
  then have "drop n (c # cs) = drop (n - 1) cs" by (simp add: drop_Cons')
  with assms Cons show ?thesis by (simp add: Let_def)
qed

lemma findMatch_None: "findMatch u i = None \<Longrightarrow> scanPlaceholders u found = found"
  by (induction u arbitrary: i) (auto split: option.splits)

lemma findMatch_Some:
  "findMatch u i = Some (j, g1, g2, g3, n) \<Longrightarrow>
     i \<le> j \<and> j - i < length u \<and>
     matchPlaceholder (drop (j - i) u) = Some (g1, g2, g3, n) \<and>
     scanPlaceholders u found = scanPlaceholders (drop (j - i) u) found"
proof (induction u arbitrary: i)
  case Nil
  then show ?case by simp
next
  case (Cons c cs)
  show ?case
  proof (cases "matchPlaceholder (c # cs)")
    case (Some m)
    with Cons.prems show ?thesis by (auto split: prod.splits)
  next
    case None
    with Cons.prems have f: "findMatch cs (i + 1) = Some (j, g1, g2, g3, n)" by simp
    from Cons.IH [OF f] have ih: "i + 1 \<le> j" "j - (i + 1) < length cs"
      "matchPlaceholder (drop (j - (i + 1)) cs) = Some (g1, g2, g3, n)"
      "scanPlaceholders cs found = scanPlaceholders (drop (j - (i + 1)) cs) found"
      by simp_all
    from ih(1) have d: "drop (j - i) (c # cs) = drop (j - (i + 1)) cs"
      by (simp add: drop_Cons')
    from ih(1,2) have "i \<le> j" "j - i < length (c # cs)" by simp_all
    moreover have "scanPlaceholders (c # cs) found = scanPlaceholders cs found"
      using None by simp
    ultimately show ?thesis using ih(3,4) d by simp
  qed
qed

text \<open>
  The loop on the regular expression object returns for every text, leaves
  \<^verbatim>\<open>lastIndex\<close> at 0, and finds what the scan of the text from \<^verbatim>\<open>lastIndex\<close> on
  finds.
\<close>

lemma extractionLoop_scan:
  "re < length s \<Longrightarrow> s ! re = li \<Longrightarrow> li \<le> length txt \<Longrightarrow>
     extractionLoop txt re s found = Some (s[re := 0], scanPlaceholders (drop li txt) found)"
proof (induction "length txt - li" arbitrary: li s found rule: less_induct)
  case less
  show ?case
  proof (cases "findMatch (drop li txt) li")
    case None
    then have "regExpExec txt re s = (None, s[re := 0])"
      using less.prems by (simp add: regExpExec_def)
    then have "extractionLoop txt re s found = Some (s[re := 0], found)"
      by (simp add: extractionLoop.simps [of "txt" "re" "s" "found"])
    then show ?thesis using findMatch_None [OF None] by simp
  next
    case (Some m)
    obtain j g1 g2 g3 n where m: "m = (j, g1, g2, g3, n)" by (cases m)
    define found2 where "found2 =
      (case orGroup (orGroup g1 g2) g3 of
         Some p \<Rightarrow> if p \<noteq> [] then setAdd p found else found
       | None \<Rightarrow> found)"
    note raw = findMatch_Some [OF Some [unfolded m], of "found"]
    from raw have j: "li \<le> j" "j - li < length txt - li"
      by simp_all
    from j(1) have dd: "drop (j - li) (drop li txt) = drop j txt"
      by simp
    from raw have mp: "matchPlaceholder (drop j txt) = Some (g1, g2, g3, n)"
      and sc: "scanPlaceholders (drop li txt) found = scanPlaceholders (drop j txt) found"
      unfolding dd by blast+
    have n: "3 \<le> n" "n \<le> length txt - j"
      using matchPlaceholder_length [OF mp] matchPlaceholder_fits [OF mp] by simp_all
    have ex: "regExpExec txt re s = (Some (g1, g2, g3), s[re := j + n])"
      using less.prems Some m by (simp add: regExpExec_def)
    have "extractionLoop txt re s found = extractionLoop txt re (s[re := j + n]) found2"
      by (simp add: extractionLoop.simps [of "txt" "re" "s" "found"] ex found2_def Let_def)
    also have "\<dots> = Some ((s[re := j + n])[re := 0], scanPlaceholders (drop (j + n) txt) found2)"
      using j n less.prems by (intro less.hyps) simp_all
    also have "scanPlaceholders (drop (j + n) txt) found2 = scanPlaceholders (drop li txt) found"
      using scanPlaceholders_match [OF mp, of found] sc
      by (simp add: found2_def add.commute)
    finally show ?thesis by simp
  qed
qed

lemma extractPlaceholders_run_eq:
  "extractPlaceholders_run w txt
     = Some (w\<lparr>regExps := regExps w @ [0]\<rparr>, extractPlaceholders txt)"
proof -
  have "extractionLoop txt (length (regExps w)) (regExps w @ [0]) []
      = Some ((regExps w @ [0])[length (regExps w) := 0], scanPlaceholders (drop 0 txt) [])"
    by (rule extractionLoop_scan) simp_all
  then show ?thesis
    by (simp add: extractPlaceholders_run_def newRegExp_def extractPlaceholders_def)
qed

lemma replaceWith_run_eq:
  "\<exists>k. replaceWith_run P source v subject s = (s @ replicate k 0, replaceWith P source v subject)"
proof (cases "literalPattern source = None \<and> regExpSyntaxError P source")
  case True
  then have "replaceWith_run P source v subject s = (s @ replicate 0 0, replaceWith P source v subject)"
    by (simp add: replaceWith_run_def newRegExp_gi_def replaceWith_def)
  then show ?thesis by blast
next
  case False
  then have "replaceWith_run P source v subject s
      = (s @ replicate 1 0, replaceWith P source v subject)"
    by (auto simp: replaceWith_run_def newRegExp_gi_def newRegExp_def replace_run_def
        replaceWith_def split: option.splits)
  then show ?thesis by blast
qed

lemma mergeKey_run_eq:
  "\<exists>k. mergeKey_run P record key merged s = (s @ replicate k 0, mergeKey P record key merged)"
proof -
  define v where "v = valueString P (map_of record key)"
  obtain k1 where r1: "replaceWith_run P (bracePattern key) v merged s
      = (s @ replicate k1 0, replaceWith P (bracePattern key) v merged)"
    using replaceWith_run_eq by blast
  show ?thesis
  proof (cases "replaceWith P (bracePattern key) v merged")
    case (Inl e)
    then have "mergeKey_run P record key merged s
        = (s @ replicate k1 0, mergeKey P record key merged)"
      using r1 by (simp add: mergeKey_run_def mergeKey_def v_def)
    then show ?thesis by blast
  next
    case (Inr merged1)
    obtain k2 where r2: "replaceWith_run P (doubleBracePattern key) v merged1 (s @ replicate k1 0)
        = ((s @ replicate k1 0) @ replicate k2 0, replaceWith P (doubleBracePattern key) v merged1)"
      using replaceWith_run_eq by blast
    show ?thesis
    proof (cases "replaceWith P (doubleBracePattern key) v merged1")
      case (Inl e)
      then have "mergeKey_run P record key merged s
          = (s @ replicate (k1 + k2) 0, mergeKey P record key merged)"
        using r1 r2 Inr by (simp add: mergeKey_run_def mergeKey_def v_def replicate_add)
      then show ?thesis by blast
    next
      case (Inr merged2)
      obtain k3 where r3:
        "replaceWith_run P (bracketPattern key) v merged2 ((s @ replicate k1 0) @ replicate k2 0)
          = (((s @ replicate k1 0) @ replicate k2 0) @ replicate k3 0,
             replaceWith P (bracketPattern key) v merged2)"
        using replaceWith_run_eq by blast
      have "mergeKey_run P record key merged s
          = (s @ replicate (k1 + k2 + k3) 0, mergeKey P record key merged)"
        using r1 r2 r3 Inr \<open>replaceWith P (bracePattern key) v merged = Inr merged1\<close>
        by (simp add: mergeKey_run_def mergeKey_def v_def replicate_add)
      then show ?thesis by blast
    qed
  qed
qed

lemma mergeKeys_run_eq:
  "\<exists>k. mergeKeys_run P record ks merged s = (s @ replicate k 0, mergeKeys P record ks merged)"
proof (induction ks arbitrary: merged s)
  case Nil
  have "mergeKeys_run P record [] merged s = (s @ replicate 0 0, mergeKeys P record [] merged)"
    by simp
  then show ?case by blast
next
  case (Cons key ks)
  obtain k1 where r1: "mergeKey_run P record key merged s
      = (s @ replicate k1 0, mergeKey P record key merged)"
    using mergeKey_run_eq by blast
  show ?case
  proof (cases "mergeKey P record key merged")
    case (Inl e)
    then have "mergeKeys_run P record (key # ks) merged s
        = (s @ replicate k1 0, mergeKeys P record (key # ks) merged)"
      using r1 by simp
    then show ?thesis by blast
  next
    case (Inr merged2)
    obtain k2 where r2: "mergeKeys_run P record ks merged2 (s @ replicate k1 0)
        = ((s @ replicate k1 0) @ replicate k2 0, mergeKeys P record ks merged2)"
      using Cons.IH by blast
    have "mergeKeys_run P record (key # ks) merged s
        = (s @ replicate (k1 + k2) 0, mergeKeys P record (key # ks) merged)"
      using r1 r2 Inr by (simp add: replicate_add)
    then show ?thesis by blast
  qed
qed

lemma mergeCertificate_run_eq:
  "\<exists>k. mergeCertificate_run P template record w
     = (w\<lparr>regExps := regExps w @ replicate k 0\<rparr>, mergeCertificate P template record)"
proof -
  obtain k where "mergeKeys_run P record (keys record) template (regExps w)
      = (regExps w @ replicate k 0, mergeKeys P record (keys record) template)"
    using mergeKeys_run_eq by blast
  then have "mergeCertificate_run P template record w
      = (w\<lparr>regExps := regExps w @ replicate k 0\<rparr>, mergeCertificate P template record)"
    by (simp add: mergeCertificate_run_def mergeCertificate_def)
  then show ?thesis by blast
qed

text \<open>
  Claim C8. Run in any two worlds, that is with any state of the component and any
  regular expression objects left behind by earlier calls, whatever their
  \<^verbatim>\<open>lastIndex\<close>, \<^verbatim>\<open>mergeCertificate\<close> gives the same output for the same template
  and record: its output is a function of the two (the function \<open>mergeCertificate\<close>
  above), it leaves the state of the component and the objects that were there as
  they were, and only adds objects of its own. The extraction scan returns for every
  text and gives the same placeholders in both worlds, those of the function
  \<open>extractPlaceholders\<close>; it leaves the component alone and adds one regular
  expression object, left with \<^verbatim>\<open>lastIndex\<close> 0.
\<close>

theorem merge_and_extraction_deterministic:
  "snd (mergeCertificate_run P template record w1)
     = snd (mergeCertificate_run P template record w2) \<and>
   snd (mergeCertificate_run P template record w1) = mergeCertificate P template record \<and>
   app (fst (mergeCertificate_run P template record w1)) = app w1 \<and>
   take (length (regExps w1)) (regExps (fst (mergeCertificate_run P template record w1)))
     = regExps w1 \<and>
   extractPlaceholders_run w1 txt
     = Some (w1\<lparr>regExps := regExps w1 @ [0]\<rparr>, extractPlaceholders txt) \<and>
   extractPlaceholders_run w2 txt
     = Some (w2\<lparr>regExps := regExps w2 @ [0]\<rparr>, extractPlaceholders txt)"
proof -
  obtain k1 where r1: "mergeCertificate_run P template record w1
      = (w1\<lparr>regExps := regExps w1 @ replicate k1 0\<rparr>, mergeCertificate P template record)"
    using mergeCertificate_run_eq by blast
  obtain k2 where r2: "mergeCertificate_run P template record w2
      = (w2\<lparr>regExps := regExps w2 @ replicate k2 0\<rparr>, mergeCertificate P template record)"
    using mergeCertificate_run_eq by blast
  show ?thesis
    by (simp add: r1 r2 extractPlaceholders_run_eq)
qed

theorem merge_and_extraction_deterministic_witness:
  "snd (mergeCertificate_run examplePlatform ''{name}'' [(''name'', Str ''Ann'')]
          \<lparr>app = exampleState [], regExps = []\<rparr>)
     = snd (mergeCertificate_run examplePlatform ''{name}'' [(''name'', Str ''Ann'')]
          \<lparr>app = exampleState [[(''name'', Str ''Bo'')]], regExps = [7, 3]\<rparr>) \<and>
   extractPlaceholders_run \<lparr>app = exampleState [[(''name'', Str ''Bo'')]], regExps = [7, 3]\<rparr> ''{name}''
     = Some (\<lparr>app = exampleState [[(''name'', Str ''Bo'')]], regExps = [7, 3, 0]\<rparr>,
             extractPlaceholders ''{name}'')"
proof -
  note T = merge_and_extraction_deterministic
    [of examplePlatform "''{name}''" "[(''name'', Str ''Ann'')]"
        "\<lparr>app = exampleState [], regExps = []\<rparr>"
        "\<lparr>app = exampleState [[(''name'', Str ''Bo'')]], regExps = [7, 3]\<rparr>" "''{name}''"]
  from T show ?thesis by simp
qed

section \<open>Double braces in the preview\<close>

text \<open>
  Claim C9 says that \<^verbatim>\<open>mergeCertificate\<close> replaces \<^verbatim>\<open>{{k}}\<close> by the value alone.
  The replacement of \<^verbatim>\<open>{k}\<close> runs first and takes the inner braces, so the pattern
  \<^verbatim>\<open>{{k}}\<close> never matches afterwards and the outer braces stay.
\<close>

theorem mergeCertificate_double_brace_leaves_braces:
  "mergeCertificate examplePlatform ''{{name}}'' [(''name'', Str ''Bob'')] = Inr ''{Bob}''"
  by code_simp

end
